theory Spec2Isabelle
  imports Main "HOL-Library.Word"
begin

section \<open>Python strings and cell values\<close>

text \<open>
  A Python \<open>str\<close> is a sequence of Unicode code points, and \<open>len\<close>, \<open>strip\<close> and
  \<open>==\<close> work on code points. A string is therefore a list of code points (natural
  numbers); \<open>ascii\<close> writes an ASCII literal.
\<close>

type_synonym ustr = "nat list"

definition ascii :: "string \<Rightarrow> ustr" where
  "ascii s = map of_char s"

text \<open>
  \<open>str.isspace\<close> of one character: the code points Python treats as whitespace,
  which are the ones \<open>str.strip()\<close> removes.
\<close>

definition isspace :: "nat \<Rightarrow> bool" where
  "isspace c \<longleftrightarrow>
     (9 \<le> c \<and> c \<le> 13) \<or> (28 \<le> c \<and> c \<le> 32) \<or> c = 133 \<or> c = 160 \<or> c = 5760 \<or>
     (8192 \<le> c \<and> c \<le> 8202) \<or> c = 8232 \<or> c = 8233 \<or> c = 8239 \<or> c = 8287 \<or> c = 12288"

definition strip :: "ustr \<Rightarrow> ustr" where
  "strip s = rev (dropWhile isspace (rev (dropWhile isspace s)))"

text \<open>
  Every sheet is read with \<open>dtype=str\<close>: a cell of a data frame is a string, or NaN
  where the sheet has no value.
\<close>

datatype cell = NaN | Str ustr

fun isna :: "cell \<Rightarrow> bool" where
  "isna NaN = True"
| "isna (Str s) = False"

fun str_of_cell :: "cell \<Rightarrow> ustr" where
  "str_of_cell (Str s) = s"
| "str_of_cell NaN = ascii ''nan''"

text \<open>\<open>clean_cell_value\<close>, src/app.py lines 18-22.\<close>

definition clean_cell_value :: "cell \<Rightarrow> ustr" where
  "clean_cell_value v = (if isna v \<or> v = Str [] then [] else strip (str_of_cell v))"

text \<open>The spec's "missing/NaN/empty-string", and the cells that hold no visible text.\<close>

definition missing_or_empty :: "cell \<Rightarrow> bool" where
  "missing_or_empty v \<longleftrightarrow> v = NaN \<or> v = Str []"

fun blank :: "cell \<Rightarrow> bool" where
  "blank NaN = True"
| "blank (Str s) = list_all isspace s"


text \<open>\<open>sep.join(xs)\<close>, and the removal of every \<open>-\<close> (\<open>s.replace("-", "")\<close>).\<close>

fun join :: "ustr \<Rightarrow> ustr list \<Rightarrow> ustr" where
  "join sep [] = []"
| "join sep [x] = x"
| "join sep (x # y # ys) = x @ sep @ join sep (y # ys)"

definition remove_dashes :: "ustr \<Rightarrow> ustr" where
  "remove_dashes s = filter (\<lambda>c. c \<noteq> 45) s"

text \<open>\<open>str(n)\<close> of a non-negative integer: its decimal digits.\<close>

fun str_of_nat :: "nat \<Rightarrow> ustr" where
  "str_of_nat n = (if n < 10 then [48 + n] else str_of_nat (n div 10) @ [48 + n mod 10])"

declare str_of_nat.simps [simp del]

section \<open>Errors and log events\<close>

text \<open>
  The exceptions the program can raise. Each \<open>ValueError\<close> the readers raise is the
  spec's SchemaError; the reason stands for the message.
\<close>

datatype reason =
    TaskSheetEmpty
  | TaskColumnsMissing "ustr list"
  | DataDateEmpty
  | BusinessColumnsMissing "ustr list"
  | SheetsMissing "ustr list"

datatype error =
    ValueError reason
  | KeyError
  | IndexError
  | AttributeError
  | UnicodeEncodeError

fun is_schema_error :: "error \<Rightarrow> bool" where
  "is_schema_error (ValueError r) = True"
| "is_schema_error e = False"

text \<open>One constructor for each message appended to \<open>logs\<close>.\<close>

datatype event =
    LogSheets "ustr list"
  | LogCreditCode ustr
  | LogDataDate ustr
  | LogFormCount nat
  | LogCheckRows nat
  | WarnCheckNoFormColumn
  | LogFormHeader ustr ustr
  | WarnNoCheckGroup
  | LogFoundRows nat
  | WarnNoJson
  | WarnJsonEmpty
  | WarnJsonNotArray
  | WarnJsonDecode
  | WarnSampleEmpty
  | WarnSampleNoC
  | WarnSampleNoMatch ustr
  | WarnSampleReadFailed
  | LogFormDone nat
  | LogZip ustr
  | LogAllDone nat
  | LogFailed error

fun is_warning :: "event \<Rightarrow> bool" where
  "is_warning WarnCheckNoFormColumn = True"
| "is_warning WarnNoCheckGroup = True"
| "is_warning WarnNoJson = True"
| "is_warning WarnJsonEmpty = True"
| "is_warning WarnJsonNotArray = True"
| "is_warning WarnJsonDecode = True"
| "is_warning WarnSampleEmpty = True"
| "is_warning WarnSampleNoC = True"
| "is_warning (WarnSampleNoMatch t) = True"
| "is_warning WarnSampleReadFailed = True"
| "is_warning e = False"

section \<open>Data frames and the workbook\<close>

text \<open>
  A data frame as \<open>pd.read_excel(..., header=1, dtype=str)\<close> returns it: the column
  labels and the data rows. A frame is rectangular: \<open>iterrows\<close> gives each row as wide
  as the header (\<open>fit\<close>: a short row is filled with NaN, as the reader does).
\<close>

record frame =
  columns :: "ustr list"
  rows :: "cell list list"

definition fit :: "nat \<Rightarrow> cell list \<Rightarrow> cell list" where
  "fit n r = take n r @ replicate (n - length r) NaN"

definition iterrows :: "frame \<Rightarrow> cell list list" where
  "iterrows df = map (fit (length (columns df))) (rows df)"

text \<open>\<open>df.empty\<close>: no rows or no columns.\<close>

definition df_empty :: "frame \<Rightarrow> bool" where
  "df_empty df \<longleftrightarrow> rows df = [] \<or> columns df = []"

text \<open>The position of a column label, and \<open>row[label]\<close>, which raises KeyError without it.\<close>

fun col_index :: "ustr list \<Rightarrow> ustr \<Rightarrow> nat option" where
  "col_index [] c = None"
| "col_index (x # xs) c = (if x = c then Some 0 else map_option Suc (col_index xs c))"

definition series_get :: "ustr list \<Rightarrow> cell list \<Rightarrow> ustr \<Rightarrow> error + cell" where
  "series_get cols r c =
     (case col_index cols c of
        None \<Rightarrow> Inl KeyError
      | Some k \<Rightarrow> if k < length r then Inr (r ! k) else Inl KeyError)"

text \<open>
  \<open>df[label] = values\<close> replaces the column with that label, or appends a new column;
  \<open>df.drop(columns=[label])\<close> removes the column with that label.
\<close>

definition set_column :: "frame \<Rightarrow> ustr \<Rightarrow> cell list \<Rightarrow> frame" where
  "set_column df c vals =
     (case col_index (columns df) c of
        None \<Rightarrow> \<lparr>columns = columns df @ [c],
                  rows = map (\<lambda>(r, v). r @ [v]) (zip (iterrows df) vals)\<rparr>
      | Some k \<Rightarrow> \<lparr>columns = columns df,
                   rows = map (\<lambda>(r, v). r[k := v]) (zip (iterrows df) vals)\<rparr>)"

definition drop_column :: "ustr list \<Rightarrow> ustr \<Rightarrow> cell list \<Rightarrow> cell list" where
  "drop_column cols c r = map snd (filter (\<lambda>(l, v). l \<noteq> c) (zip cols r))"

text \<open>
  \<open>df.drop_duplicates()\<close> keeps the first occurrence of each row, in the frame's order.
\<close>

fun drop_duplicates_seen :: "'a list \<Rightarrow> 'a list \<Rightarrow> 'a list" where
  "drop_duplicates_seen seen [] = []"
| "drop_duplicates_seen seen (x # xs) =
     (if x \<in> set seen then drop_duplicates_seen seen xs
      else x # drop_duplicates_seen (x # seen) xs)"

definition drop_duplicates :: "'a list \<Rightarrow> 'a list" where
  "drop_duplicates xs = drop_duplicates_seen [] xs"

text \<open>
  The workbook: its sheets in order, each with the frame that reading it with
  \<open>header=1, dtype=str\<close> gives. \<open>pd.read_excel\<close> raises when the sheet does not exist.
\<close>

type_synonym workbook = "(ustr \<times> frame) list"

definition sheet_names :: "workbook \<Rightarrow> ustr list" where
  "sheet_names excel_file = map fst excel_file"

definition read_excel :: "workbook \<Rightarrow> ustr \<Rightarrow> frame option" where
  "read_excel excel_file sheet_name = map_of excel_file sheet_name"

text \<open>
  The labels and sheet names of the wire contract, as code points: the columns
  "she hui tong yi xin yong dai ma" (credit code), "shu ju ri qi" (data date),
  "ye wu biao dan ming cheng" (form name), "ye wu biao dan ying wen ming cheng" (form
  English name), "biao dan ming cheng" (form name of a check row); the sheets
  "ren wu shuo ming" (task), "ye wu shuo ming" (business), "jiao yan jie guo" (check
  results); the prefix "shi li shu ju_" of a sample sheet; the temporary column
  "C lie_qing xi hou"; the default form "mo ren biao dan".
\<close>

definition col_credit_code :: ustr where
  "col_credit_code = [31038, 20250, 32479, 19968, 20449, 29992, 20195, 30721]"

definition col_data_date :: ustr where
  "col_data_date = [25968, 25454, 26085, 26399]"

definition col_business_name :: ustr where
  "col_business_name = [19994, 21153, 34920, 21333, 21517, 31216]"

definition col_business_en_name :: ustr where
  "col_business_en_name = [19994, 21153, 34920, 21333, 33521, 25991, 21517, 31216]"

definition col_check_form :: ustr where
  "col_check_form = [34920, 21333, 21517, 31216]"

definition sheet_task :: ustr where
  "sheet_task = [20219, 21153, 35828, 26126]"

definition sheet_business :: ustr where
  "sheet_business = [19994, 21153, 35828, 26126]"

definition sheet_check :: ustr where
  "sheet_check = [26657, 39564, 32467, 26524]"

definition sample_prefix :: ustr where
  "sample_prefix = [31034, 20363, 25968, 25454, 95]"

definition temp_column :: ustr where
  "temp_column = [67, 21015, 95, 28165, 27927, 21518]"

definition default_form_name :: ustr where
  "default_form_name = [40664, 35748, 34920, 21333]"

section \<open>The readers\<close>

text \<open>\<open>read_task_info\<close>, src/app.py lines 42-60.\<close>

definition read_task_info :: "frame \<Rightarrow> error + (ustr \<times> ustr)" where
  "read_task_info df_task =
     (if df_empty df_task then Inl (ValueError TaskSheetEmpty)
      else
        let missing_cols =
              filter (\<lambda>c. c \<notin> set (columns df_task)) [col_credit_code, col_data_date]
        in if missing_cols \<noteq> [] then Inl (ValueError (TaskColumnsMissing missing_cols))
           else
             (case iterrows df_task of
                [] \<Rightarrow> Inl IndexError
              | first_row # rest \<Rightarrow>
                  (case series_get (columns df_task) first_row col_credit_code of
                     Inl e \<Rightarrow> Inl e
                   | Inr credit_cell \<Rightarrow>
                       (case series_get (columns df_task) first_row col_data_date of
                          Inl e \<Rightarrow> Inl e
                        | Inr date_cell \<Rightarrow>
                            let credit_code = clean_cell_value credit_cell;
                                data_date_raw = clean_cell_value date_cell;
                                data_date = strip (remove_dashes data_date_raw)
                            in if data_date = [] then Inl (ValueError DataDateEmpty)
                               else Inr (credit_code, data_date)))))"

text \<open>
  \<open>read_business_info\<close>, src/app.py lines 62-74. A business dict is the pair of its two
  cells. (The \<open>st.warning\<close> call only paints the page.)
\<close>

type_synonym business = "cell \<times> cell"

definition select_business :: "frame \<Rightarrow> error + business list" where
  "select_business df =
     (case (col_index (columns df) col_business_name,
            col_index (columns df) col_business_en_name) of
        (Some k, Some l) \<Rightarrow>
          Inr (map (\<lambda>r. (if k < length r then r ! k else NaN,
                          if l < length r then r ! l else NaN)) (iterrows df))
      | _ \<Rightarrow> Inl KeyError)"

definition read_business_info :: "frame \<Rightarrow> error + business list" where
  "read_business_info df_business =
     (if df_empty df_business then Inr []
      else
        let missing_cols =
              filter (\<lambda>c. c \<notin> set (columns df_business))
                [col_business_name, col_business_en_name]
        in if missing_cols \<noteq> [] then Inl (ValueError (BusinessColumnsMissing missing_cols))
           else
             (case select_business df_business of
                Inl e \<Rightarrow> Inl e
              | Inr pairs \<Rightarrow> Inr (drop_duplicates pairs)))"

section \<open>Library functions taken as given\<close>

text \<open>
  A value as \<open>json.loads\<close> returns it. A dict is its items in insertion order. A float
  is held as its \<open>repr\<close>; the two zeros are \<open>0.0\<close> and \<open>-0.0\<close>.
\<close>

datatype pyval =
    PNone
  | PBool bool
  | PInt int
  | PFloat ustr
  | PStr ustr
  | PList "pyval list"
  | PDict "(ustr \<times> pyval) list"

text \<open>Python's truth value, which \<open>not json_obj\<close> tests.\<close>

fun truthy :: "pyval \<Rightarrow> bool" where
  "truthy PNone = False"
| "truthy (PBool b) = b"
| "truthy (PInt i) = (i \<noteq> 0)"
| "truthy (PFloat r) = (r \<noteq> ascii ''0.0'' \<and> r \<noteq> ascii ''-0.0'')"
| "truthy (PStr s) = (s \<noteq> [])"
| "truthy (PList xs) = (xs \<noteq> [])"
| "truthy (PDict kvs) = (kvs \<noteq> [])"

text \<open>
  The functions of the Python library that the program calls and the repository does not
  define: \<open>json.loads\<close> (\<open>None\<close> where it raises \<open>JSONDecodeError\<close>), the built-in
  \<open>str\<close> on a parsed value, and the MD5 digest of a byte string. Every statement below
  holds for any such functions.
\<close>

record pylib =
  json_loads :: "ustr \<Rightarrow> pyval option"
  py_str :: "pyval \<Rightarrow> ustr"
  md5_digest :: "8 word list \<Rightarrow> 8 word list"

section \<open>RecordBuilder: \<open>process_business_data\<close>\<close>

text \<open>How one iteration of the loop over the check rows ends.\<close>

datatype step = Continue | Append ustr | Raise error

text \<open>
  Lines 124-153: the sample sheet is read and searched inside \<open>try\<close>. The result is the
  events logged and \<open>None\<close> for \<open>continue\<close>, or \<open>Some part2\<close> when control reaches
  line 155. The handler of line 152 logs and falls through, \<open>part2\<close> still empty.
\<close>

definition sample_part2 :: "workbook \<Rightarrow> ustr \<Rightarrow> ustr \<Rightarrow> event list \<times> ustr option" where
  "sample_part2 excel_file business_name target_row_num =
     (case read_excel excel_file (sample_prefix @ business_name) of
        None \<Rightarrow> ([WarnSampleReadFailed], Some [])
      | Some df_sample \<Rightarrow>
          if df_empty df_sample then ([WarnSampleEmpty], None)
          else if length (columns df_sample) < 3 then ([WarnSampleNoC], None)
          else
            let cleaned = map (\<lambda>r. Str (clean_cell_value (r ! 2))) (iterrows df_sample);
                df_marked = set_column df_sample temp_column cleaned;
                matched_rows =
                  filter (\<lambda>r. series_get (columns df_marked) r temp_column
                                 = Inr (Str target_row_num))
                    (rows df_marked)
            in (case matched_rows of
                  [] \<Rightarrow> ([WarnSampleNoMatch target_row_num], None)
                | first_match # others \<Rightarrow>
                    let target_row = drop_column (columns df_marked) temp_column first_match;
                        d_after_data = (if length target_row > 3 then drop 3 target_row else [])
                    in ([], Some (join (ascii ''@&@'') (map clean_cell_value d_after_data)))))"

text \<open>Lines 100-122: the J field, parsed; \<open>Inr\<close> holds \<open>target_row_num\<close>.\<close>

definition json_target :: "pylib \<Rightarrow> ustr \<Rightarrow> (event list \<times> step) + ustr" where
  "json_target lib j_val =
     (if j_val = [] then Inl ([WarnNoJson], Continue)
      else
        (case json_loads lib j_val of
           None \<Rightarrow> Inl ([WarnJsonDecode], Continue)
         | Some json_obj \<Rightarrow>
             if \<not> truthy json_obj then Inl ([WarnJsonEmpty], Continue)
             else
               (case json_obj of
                  PDict items \<Rightarrow>
                    (case items of
                       [] \<Rightarrow> Inl ([], Raise IndexError)
                     | (json_key, json_value) # later \<Rightarrow>
                         (case json_value of
                            PList (first # others) \<Rightarrow> Inr (strip (py_str lib first))
                          | _ \<Rightarrow> Inl ([WarnJsonNotArray], Continue)))
                | _ \<Rightarrow> Inl ([], Raise AttributeError))))"

text \<open>
  Lines 95-101: a positional field of the check row, cleaned; a position past the end of
  the row reads as the empty string. \<open>part1\<close> is the first segment of the record.
\<close>

definition field :: "cell list \<Rightarrow> nat \<Rightarrow> ustr" where
  "field check_row k = clean_cell_value (if length check_row > k then check_row ! k else Str [])"

definition part1 :: "cell list \<Rightarrow> ustr" where
  "part1 check_row =
     (let c_val = field check_row 2;
          i_val = field check_row 8;
          g_val = field check_row 6
      in ascii ''01|'' @ c_val @ ascii ''|'' @ i_val @ ascii ''|'' @ g_val @ ascii ''|'')"

text \<open>The body of the loop, lines 93-156, for one check row.\<close>

definition process_check_row ::
  "pylib \<Rightarrow> workbook \<Rightarrow> ustr \<Rightarrow> cell list \<Rightarrow> event list \<times> step" where
  "process_check_row lib excel_file business_name check_row =
     (let j_val = field check_row 9
      in (case json_target lib j_val of
            Inl stop \<Rightarrow> stop
          | Inr target_row_num \<Rightarrow>
              (case sample_part2 excel_file business_name target_row_num of
                 (evs, None) \<Rightarrow> (evs, Continue)
               | (evs, Some part2) \<Rightarrow> (evs, Append (part1 check_row @ part2)))))"

text \<open>
  The loop. An exception leaves it at once; what was logged before stays in \<open>logs\<close>.
\<close>

fun process_rows ::
  "pylib \<Rightarrow> workbook \<Rightarrow> ustr \<Rightarrow> cell list list \<Rightarrow> ustr list \<Rightarrow> event list \<times> (error + ustr list)"
where
  "process_rows lib excel_file business_name [] dat_strings = ([], Inr dat_strings)"
| "process_rows lib excel_file business_name (check_row # rest) dat_strings =
     (case process_check_row lib excel_file business_name check_row of
        (evs, Raise e) \<Rightarrow> (evs, Inl e)
      | (evs, Continue) \<Rightarrow>
          (case process_rows lib excel_file business_name rest dat_strings of
             (evs', res) \<Rightarrow> (evs @ evs', res))
      | (evs, Append full_str) \<Rightarrow>
          (case process_rows lib excel_file business_name rest (dat_strings @ [full_str]) of
             (evs', res) \<Rightarrow> (evs @ evs', res)))"

text \<open>
  \<open>check_group\<close> is \<open>None\<close> or the check-result frame grouped by its form-name column
  (\<open>dropna=False\<close>): a name is among the groups when some row holds exactly that string
  there, and \<open>get_group\<close> gives those rows in the frame's order.
\<close>

definition get_group :: "frame \<Rightarrow> ustr \<Rightarrow> cell list list" where
  "get_group df_check name =
     filter (\<lambda>r. series_get (columns df_check) r col_check_form = Inr (Str name))
       (iterrows df_check)"

text \<open>
  \<open>process_business_data\<close>, lines 76-159. The events are the ones it appends to
  \<open>logs\<close>; \<open>credit_code\<close> and \<open>data_date\<close> are parameters it never reads.
\<close>

definition process_business_data ::
  "pylib \<Rightarrow> workbook \<Rightarrow> business \<Rightarrow> frame option \<Rightarrow> event list \<times> (error + ustr list \<times> ustr)"
where
  "process_business_data lib excel_file business check_group =
     (let business_name = clean_cell_value (fst business);
          business_en_name = clean_cell_value (snd business);
          header = LogFormHeader business_name business_en_name
      in (case check_group of
            None \<Rightarrow> ([header, WarnNoCheckGroup], Inr ([], business_en_name))
          | Some df_check \<Rightarrow>
              let check_rows = get_group df_check business_name
              in if check_rows = [] then ([header, WarnNoCheckGroup], Inr ([], business_en_name))
                 else
                   (case process_rows lib excel_file business_name check_rows [] of
                      (evs, Inl e) \<Rightarrow> (header # LogFoundRows (length check_rows) # evs, Inl e)
                    | (evs, Inr dat_strings) \<Rightarrow>
                        (header # LogFoundRows (length check_rows) # evs
                           @ [LogFormDone (length dat_strings)],
                         Inr (dat_strings, business_en_name)))))"

section \<open>ArtifactPackager: the loop of \<open>main\<close>\<close>

text \<open>
  \<open>s.encode("utf-8")\<close>. A surrogate has no UTF-8 form and raises; a number from
  0x110000 on is no code point.
\<close>

definition utf8_char :: "nat \<Rightarrow> error + 8 word list" where
  "utf8_char c =
     (if c < 0x80 then Inr [of_nat c]
      else if c < 0x800 then Inr [of_nat (0xC0 + c div 64), of_nat (0x80 + c mod 64)]
      else if c < 0x10000 then
        (if 0xD800 \<le> c \<and> c \<le> 0xDFFF then Inl UnicodeEncodeError
         else Inr [of_nat (0xE0 + c div 4096), of_nat (0x80 + c div 64 mod 64),
                   of_nat (0x80 + c mod 64)])
      else if c < 0x110000 then
        Inr [of_nat (0xF0 + c div 262144), of_nat (0x80 + c div 4096 mod 64),
             of_nat (0x80 + c div 64 mod 64), of_nat (0x80 + c mod 64)]
      else Inl UnicodeEncodeError)"

fun encode_utf8 :: "ustr \<Rightarrow> error + 8 word list" where
  "encode_utf8 [] = Inr []"
| "encode_utf8 (c # cs) =
     (case utf8_char c of
        Inl e \<Rightarrow> Inl e
      | Inr bs \<Rightarrow> (case encode_utf8 cs of Inl e \<Rightarrow> Inl e | Inr rest \<Rightarrow> Inr (bs @ rest)))"

text \<open>\<open>hexdigest()\<close>: two lowercase hexadecimal digits for each byte.\<close>

definition hex_digit :: "nat \<Rightarrow> nat" where
  "hex_digit d = (if d < 10 then 48 + d else 87 + d)"

definition hexdigest :: "8 word list \<Rightarrow> ustr" where
  "hexdigest bs = concat (map (\<lambda>b. [hex_digit (unat b div 16), hex_digit (unat b mod 16)]) bs)"

text \<open>\<open>get_bytes_md5\<close>, lines 34-40.\<close>

definition get_bytes_md5 :: "pylib \<Rightarrow> 8 word list \<Rightarrow> ustr" where
  "get_bytes_md5 lib bytes_data =
     (if bytes_data = [] then [] else hexdigest (md5_digest lib bytes_data))"

text \<open>
  What lines 227-258 make for one form. The two files go into a ZIP archive named
  \<open>zip_name\<close>; the archive writer is outside this model.
\<close>

record artifact =
  dat_filename :: ustr
  dat_bytes :: "8 word list"
  log_filename :: ustr
  log_bytes :: "8 word list"
  zip_name :: ustr

definition line_count :: "ustr list \<Rightarrow> nat" where
  "line_count dat_strings = length (filter (\<lambda>s. strip s \<noteq> []) dat_strings)"

definition base_filename :: "ustr \<Rightarrow> ustr \<Rightarrow> ustr \<Rightarrow> ustr" where
  "base_filename credit_code business_en_name data_date =
     credit_code @ ascii ''_'' @ business_en_name @ ascii ''_CHK_'' @ data_date"

definition log_lines :: "pylib \<Rightarrow> ustr \<Rightarrow> ustr \<Rightarrow> ustr \<Rightarrow> ustr \<Rightarrow> ustr list \<Rightarrow> 8 word list \<Rightarrow> ustr list"
where
  "log_lines lib credit_code data_date create_time business_en_name dat_strings bytes =
     [base_filename credit_code business_en_name data_date @ ascii ''.dat'',
      get_bytes_md5 lib bytes,
      str_of_nat (length bytes),
      create_time,
      str_of_nat (line_count dat_strings)]"

text \<open>\<open>create_time\<close> is what \<open>datetime.now().strftime(...)\<close> returns at line 238.\<close>

definition make_artifact ::
  "pylib \<Rightarrow> ustr \<Rightarrow> ustr \<Rightarrow> ustr \<Rightarrow> ustr list \<Rightarrow> ustr \<Rightarrow> error + artifact" where
  "make_artifact lib credit_code data_date create_time dat_strings business_en_name =
     (let dat_content = join [10] dat_strings
      in (case encode_utf8 dat_content of
            Inl e \<Rightarrow> Inl e
          | Inr bytes \<Rightarrow>
              let base = base_filename credit_code business_en_name data_date;
                  log_content =
                    join [10] (log_lines lib credit_code data_date create_time
                                 business_en_name dat_strings bytes)
              in (case encode_utf8 log_content of
                    Inl e \<Rightarrow> Inl e
                  | Inr lbytes \<Rightarrow>
                      Inr \<lparr>dat_filename = base @ ascii ''.dat'', dat_bytes = bytes,
                           log_filename = base @ ascii ''.log'', log_bytes = lbytes,
                           zip_name = base @ ascii ''.zip''\<rparr>)))"

text \<open>
  Lines 222-258, the loop over the business forms. \<open>clock k\<close> is the time read while
  the form at position \<open>k\<close> is packed.
\<close>

fun process_forms ::
  "pylib \<Rightarrow> (nat \<Rightarrow> ustr) \<Rightarrow> workbook \<Rightarrow> frame option \<Rightarrow> ustr \<Rightarrow> ustr \<Rightarrow> nat \<Rightarrow> business list
     \<Rightarrow> event list \<times> (error + artifact list)"
where
  "process_forms lib clock excel_file check_group credit_code data_date k [] = ([], Inr [])"
| "process_forms lib clock excel_file check_group credit_code data_date k (business # rest) =
     (case process_business_data lib excel_file business check_group of
        (evs, Inl e) \<Rightarrow> (evs, Inl e)
      | (evs, Inr (dat_strings, business_en_name)) \<Rightarrow>
          (case make_artifact lib credit_code data_date (clock k) dat_strings business_en_name of
             Inl e \<Rightarrow> (evs, Inl e)
           | Inr a \<Rightarrow>
               (case process_forms lib clock excel_file check_group credit_code data_date
                       (Suc k) rest of
                  (evs', Inl e) \<Rightarrow> (evs @ LogZip (zip_name a) # evs', Inl e)
                | (evs', Inr arts) \<Rightarrow> (evs @ LogZip (zip_name a) # evs', Inr (a # arts)))))"

text \<open>Lines 204-206: the catalog, or the one default form when it is empty.\<close>

definition default_business :: business where
  "default_business = (Str default_form_name, Str (ascii ''Default''))"

definition forms_to_process :: "business list \<Rightarrow> business list" where
  "forms_to_process business_list = (if business_list = [] then [default_business] else business_list)"

text \<open>Lines 209-218: the check-result index.\<close>

definition read_check_group :: "workbook \<Rightarrow> event list \<times> frame option" where
  "read_check_group excel_file =
     (case read_excel excel_file sheet_check of
        None \<Rightarrow> ([], None)
      | Some df_check \<Rightarrow>
          if col_check_form \<in> set (columns df_check)
          then ([LogCheckRows (length (rows df_check))],
                if df_empty df_check then None else Some df_check)
          else ([WarnCheckNoFormColumn], None))"

text \<open>
  \<open>main\<close>, lines 184-281, from the opened workbook to the per-form archives: the log
  and the exception caught at line 278, or the artifacts in catalog order.
\<close>

definition run_job :: "pylib \<Rightarrow> (nat \<Rightarrow> ustr) \<Rightarrow> workbook \<Rightarrow> event list \<times> (error + artifact list)" where
  "run_job lib clock excel_file =
     (let log0 = [LogSheets (sheet_names excel_file)];
          missing_required_sheets =
            filter (\<lambda>s. s \<notin> set (sheet_names excel_file)) [sheet_task, sheet_business];
          failed = (\<lambda>logs e. (logs @ [LogFailed e], Inl e))
      in if missing_required_sheets \<noteq> [] then failed log0 (ValueError (SheetsMissing missing_required_sheets))
         else
           (case (read_excel excel_file sheet_task, read_excel excel_file sheet_business) of
              (Some df_task, Some df_business) \<Rightarrow>
                (case read_task_info df_task of
                   Inl e \<Rightarrow> failed log0 e
                 | Inr (credit_code, data_date) \<Rightarrow>
                     let log1 = log0 @ [LogCreditCode credit_code, LogDataDate data_date]
                     in (case read_business_info df_business of
                           Inl e \<Rightarrow> failed log1 e
                         | Inr business_list \<Rightarrow>
                             let forms = forms_to_process business_list;
                                 log2 = log1 @ [LogFormCount (length forms)];
                                 (cevs, check_group) = read_check_group excel_file;
                                 log3 = log2 @ cevs
                             in (case process_forms lib clock excel_file check_group
                                        credit_code data_date 0 forms of
                                   (evs, Inl e) \<Rightarrow> failed (log3 @ evs) e
                                 | (evs, Inr arts) \<Rightarrow>
                                     (log3 @ evs @ [LogAllDone (length arts)], Inr arts))))
            | _ \<Rightarrow> failed log0 KeyError))"

section \<open>Notions used to state the properties\<close>

text \<open>
  The cell of the first data row under a label (NaN when there is none), and the data date
  of a task frame after the dashes are removed, before and after the final \<open>strip()\<close>.
\<close>

definition first_cell :: "frame \<Rightarrow> ustr \<Rightarrow> cell" where
  "first_cell df c =
     (case (iterrows df, col_index (columns df) c) of
        (r # rest, Some k) \<Rightarrow> (if k < length r then r ! k else NaN)
      | _ \<Rightarrow> NaN)"

definition dashless_date :: "frame \<Rightarrow> ustr" where
  "dashless_date df = remove_dashes (clean_cell_value (first_cell df col_data_date))"

definition normalized_date :: "frame \<Rightarrow> ustr" where
  "normalized_date df = strip (dashless_date df)"

text \<open>A business catalog frame with exactly the two required columns.\<close>

definition catalog_frame :: "business list \<Rightarrow> frame" where
  "catalog_frame pairs =
     \<lparr>columns = [col_business_name, col_business_en_name],
      rows = map (\<lambda>(n, e). [n, e]) pairs\<rparr>"

text \<open>
  A string that \<open>encode("utf-8")\<close> accepts: every element is a code point and none is
  a surrogate.
\<close>

definition encodable :: "ustr \<Rightarrow> bool" where
  "encodable s = list_all (\<lambda>c. c < 0x110000 \<and> \<not> (0xD800 \<le> c \<and> c \<le> 0xDFFF)) s"

text \<open>
  The lines of a text, split at the line feed, and the number of them that are not blank.
\<close>

fun split_lines :: "ustr \<Rightarrow> ustr list" where
  "split_lines [] = [[]]"
| "split_lines (c # cs) =
     (if c = 10 then [] # split_lines cs
      else (case split_lines cs of [] \<Rightarrow> [[c]] | l # ls \<Rightarrow> (c # l) # ls))"

definition nonblank_lines :: "ustr \<Rightarrow> nat" where
  "nonblank_lines s = length (filter (\<lambda>l. strip l \<noteq> []) (split_lines s))"

text \<open>A lowercase hexadecimal digit, a decimal digit, and the number a decimal string denotes.\<close>

definition lower_hex :: "nat \<Rightarrow> bool" where
  "lower_hex c \<longleftrightarrow> (48 \<le> c \<and> c \<le> 57) \<or> (97 \<le> c \<and> c \<le> 102)"



text \<open>
  Two artifacts that are the same but for the time stamp: the names and the data bytes are
  equal, and the two logs encode five lines that differ in the fourth line at most.
\<close>

definition same_but_time :: "artifact \<Rightarrow> artifact \<Rightarrow> bool" where
  "same_but_time a b \<longleftrightarrow>
     dat_filename a = dat_filename b \<and> dat_bytes a = dat_bytes b \<and>
     log_filename a = log_filename b \<and> zip_name a = zip_name b \<and>
     (\<exists>name digest size t u count.
        encode_utf8 (join [10] [name, digest, size, t, count]) = Inr (log_bytes a) \<and>
        encode_utf8 (join [10] [name, digest, size, u, count]) = Inr (log_bytes b))"

text \<open>
  A form without check rows: there is no check-result index, or the index has no group
  for the form's cleaned name.
\<close>

definition no_group :: "frame option \<Rightarrow> business \<Rightarrow> bool" where
  "no_group check_group business =
     (case check_group of
        None \<Rightarrow> True
      | Some df_check \<Rightarrow> get_group df_check (clean_cell_value (fst business)) = [])"

section \<open>Example inputs\<close>

text \<open>
  Task frames: the one of the spec's end-to-end scenario, and one whose data date is
  \<open>"- -"\<close>.
\<close>

definition task_frame :: frame where
  "task_frame =
     \<lparr>columns = [col_credit_code, col_data_date],
      rows = [[Str (ascii ''9111010000''), Str (ascii ''2024-01-05'')]]\<rparr>"

definition task_frame_dashes :: frame where
  "task_frame_dashes =
     \<lparr>columns = [col_credit_code, col_data_date],
      rows = [[Str (ascii ''9111010000''), Str (ascii ''- -'')]]\<rparr>"

text \<open>
  The library at the inputs of the examples: \<open>json.loads\<close> of the texts
  \<open>{"rows":["3"]}\<close>, \<open>[1]\<close> and \<open>{not json\<close>, \<open>str\<close> of a string and of an
  integer, and the MD5 digest of the data file of the end-to-end scenario. Off these inputs
  the three functions return a fixed value that no example reads.
\<close>

definition example_json_loads :: "ustr \<Rightarrow> pyval option" where
  "example_json_loads s =
     (if s = [123, 34, 114, 111, 119, 115, 34, 58, 91, 34, 51, 34, 93, 125]
      then Some (PDict [(ascii ''rows'', PList [PStr (ascii ''3'')])])
      else if s = ascii ''[1]'' then Some (PList [PInt 1])
      else None)"

fun example_py_str :: "pyval \<Rightarrow> ustr" where
  "example_py_str (PStr s) = s"
| "example_py_str (PInt i) = (if i < 0 then 45 # str_of_nat (nat (- i)) else str_of_nat (nat i))"
| "example_py_str v = []"

definition example_md5 :: "8 word list \<Rightarrow> 8 word list" where
  "example_md5 bs =
     (if bs = map of_nat [48, 49, 124, 65, 49, 124, 73, 49, 124, 71, 49, 124, 118, 49, 64, 38,
                          64, 118, 50]
      then [222, 241, 21, 239, 106, 64, 242, 136, 184, 163, 225, 143, 149, 90, 29, 129]
      else replicate 16 0)"

definition example_lib :: pylib where
  "example_lib =
     \<lparr>json_loads = example_json_loads, py_str = example_py_str, md5_digest = example_md5\<rparr>"

text \<open>
  The workbook of the spec's end-to-end scenario, with the C field and the J field of its
  one check row left open: the form "qi ye xin xi" with the code CompanyInfo, the check
  row (C, G1, I1, J), and the sample sheet with the row (3, v1, v2) from column C on. The
  second workbook is the same without the sample sheet.
\<close>

definition scenario_form :: ustr where
  "scenario_form = [20225, 19994, 20449, 24687]"

definition scenario_row :: "cell \<Rightarrow> cell \<Rightarrow> cell list" where
  "scenario_row c j =
     [Str scenario_form, NaN, c, NaN, NaN, NaN, Str (ascii ''G1''), NaN, Str (ascii ''I1''), j]"

definition check_frame :: "cell \<Rightarrow> cell \<Rightarrow> frame" where
  "check_frame c j =
     \<lparr>columns = [col_check_form, ascii ''B'', ascii ''C'', ascii ''D'', ascii ''E'', ascii ''F'',
                 ascii ''G'', ascii ''H'', ascii ''I'', ascii ''J''],
      rows = [scenario_row c j]\<rparr>"

definition scenario_business :: business where
  "scenario_business = (Str scenario_form, Str (ascii ''CompanyInfo''))"

definition sample_frame :: frame where
  "sample_frame =
     \<lparr>columns = [ascii ''A'', ascii ''B'', ascii ''C'', ascii ''D'', ascii ''E''],
      rows = [[NaN, NaN, Str (ascii ''3''), Str (ascii ''v1''), Str (ascii ''v2'')]]\<rparr>"

definition scenario_without_sample :: "cell \<Rightarrow> cell \<Rightarrow> workbook" where
  "scenario_without_sample c j =
     [(sheet_task, task_frame),
      (sheet_business, catalog_frame [scenario_business]),
      (sheet_check, check_frame c j)]"

definition scenario :: "cell \<Rightarrow> cell \<Rightarrow> workbook" where
  "scenario c j = scenario_without_sample c j @ [(sample_prefix @ scenario_form, sample_frame)]"

definition json_rows_3 :: cell where
  "json_rows_3 = Str [123, 34, 114, 111, 119, 115, 34, 58, 91, 34, 51, 34, 93, 125]"

definition example_clock :: "nat \<Rightarrow> ustr" where
  "example_clock k = ascii ''2024-01-05 12:00:00''"

definition later_clock :: "nat \<Rightarrow> ustr" where
  "later_clock k = ascii ''2024-01-06 08:30:00''"

text \<open>
  The record of the scenario, and the record when the C field of the check row holds
  \<open>a\<close>, a line feed and \<open>b\<close>.
\<close>

definition scenario_record :: ustr where
  "scenario_record = ascii ''01|A1|I1|G1|v1@&@v2''"

definition newline_record :: ustr where
  "newline_record = ascii ''01|a'' @ [10] @ ascii ''b|I1|G1|v1@&@v2''"

text \<open>A string that starts like a record.\<close>

definition record_like :: "ustr \<Rightarrow> bool" where
  "record_like s \<longleftrightarrow> (\<exists>rest. s = ascii ''01|'' @ rest)"

text \<open>
  A business catalog with a leading column of row numbers before the two required
  columns, and the text of the log of a form without records whose credit code is
  \<open>a\<close>, a line feed and \<open>b\<close>.
\<close>

definition numbered_catalog :: frame where
  "numbered_catalog =
     \<lparr>columns = [ascii ''No'', col_business_name, col_business_en_name],
      rows = [[Str (ascii ''1''), Str (ascii ''A''), Str (ascii ''X'')],
              [Str (ascii ''2''), Str (ascii ''A''), Str (ascii ''X'')]]\<rparr>"


section \<open>Properties of the cell normalizer\<close>

lemma rev_dropWhile_takeWhile:
  "xs = rev (dropWhile P (rev xs)) @ rev (takeWhile P (rev xs))"
  by (metis rev_append rev_rev_ident takeWhile_dropWhile_id)

lemma strip_middle: "dropWhile isspace s = strip s @ rev (takeWhile isspace (rev (dropWhile isspace s)))"
  unfolding strip_def by (rule rev_dropWhile_takeWhile)

lemma all_dropWhile_iff: "(\<forall>x\<in>set (dropWhile P xs). P x) \<longleftrightarrow> (\<forall>x\<in>set xs. P x)"
  by (induction xs) auto

lemma strip_decomp:
  "\<exists>pre suf. s = pre @ strip s @ suf \<and> list_all isspace pre \<and> list_all isspace suf"
proof -
  let ?a = "takeWhile isspace s"
  let ?b = "rev (takeWhile isspace (rev (dropWhile isspace s)))"
  have "s = ?a @ dropWhile isspace s" by simp
  then have "s = ?a @ strip s @ ?b" using strip_middle [of s] by simp
  moreover have "list_all isspace ?a"
    by (simp add: list_all_iff) (meson set_takeWhileD)
  moreover have "list_all isspace ?b"
    by (simp add: list_all_iff) (meson set_takeWhileD)
  ultimately show ?thesis by blast
qed

lemma strip_empty_iff: "strip s = [] \<longleftrightarrow> list_all isspace s"
  by (simp add: strip_def dropWhile_eq_Nil_conv list_all_iff all_dropWhile_iff)

lemma strip_hd: "strip s \<noteq> [] \<Longrightarrow> \<not> isspace (hd (strip s))"
proof -
  assume ne: "strip s \<noteq> []"
  let ?m = "dropWhile isspace s"
  have m: "?m = strip s @ rev (takeWhile isspace (rev ?m))" by (rule strip_middle)
  with ne have "hd ?m = hd (strip s)" by (metis hd_append2)
  moreover from m ne have "?m \<noteq> []" by (metis Nil_is_append_conv)
  then have "\<not> isspace (hd ?m)" by (rule hd_dropWhile)
  ultimately show ?thesis by simp
qed

lemma strip_last: "strip s \<noteq> [] \<Longrightarrow> \<not> isspace (last (strip s))"
proof -
  assume ne: "strip s \<noteq> []"
  let ?r = "dropWhile isspace (rev (dropWhile isspace s))"
  from ne have "?r \<noteq> []" by (simp add: strip_def)
  then have "\<not> isspace (hd ?r)" by (rule hd_dropWhile)
  moreover have "last (strip s) = hd ?r"
    using \<open>?r \<noteq> []\<close> by (simp add: strip_def last_rev)
  ultimately show ?thesis by simp
qed

text \<open>
  C3 (as the code has it). \<open>clean_cell_value\<close> is a total function. It returns the empty
  string exactly for the blank cells: NaN, and every string made of whitespace only (the
  empty string among them). For any other cell it returns the cell's string with the
  leading and the trailing whitespace removed: the cell's text is the result between a
  whitespace prefix and a whitespace suffix, so every interior character is kept, and the
  result neither starts nor ends with whitespace.
\<close>

theorem clean_cell_value_blank_or_stripped:
  "(clean_cell_value v = [] \<longleftrightarrow> blank v) \<and>
   (\<not> blank v \<longrightarrow>
      clean_cell_value v = strip (str_of_cell v) \<and>
      (\<exists>pre suf. str_of_cell v = pre @ clean_cell_value v @ suf \<and>
         list_all isspace pre \<and> list_all isspace suf) \<and>
      \<not> isspace (hd (clean_cell_value v)) \<and> \<not> isspace (last (clean_cell_value v)))"
proof (cases v)
  case NaN
  then show ?thesis by (simp add: clean_cell_value_def)
next
  case (Str s)
  show ?thesis
  proof (cases "s = []")
    case True
    with Str show ?thesis by (simp add: clean_cell_value_def)
  next
    case False
    with Str have c: "clean_cell_value v = strip s" by (simp add: clean_cell_value_def)
    have e: "strip s = [] \<longleftrightarrow> list_all isspace s" by (rule strip_empty_iff)
    from c e Str strip_decomp [of s] strip_hd [of s] strip_last [of s]
    show ?thesis by auto
  qed
qed

theorem clean_cell_value_blank_or_stripped_witness:
  "clean_cell_value (Str (ascii '' a b '')) = ascii ''a b'' \<and>
   \<not> blank (Str (ascii '' a b '')) \<and>
   \<not> isspace (hd (clean_cell_value (Str (ascii '' a b '')))) \<and>
   clean_cell_value (Str (ascii ''  '')) = [] \<and> blank (Str (ascii ''  ''))"
  using clean_cell_value_blank_or_stripped [of "Str (ascii '' a b '')"]
    clean_cell_value_blank_or_stripped [of "Str (ascii ''  '')"]
  by (simp add: clean_cell_value_def strip_def ascii_def isspace_def)

text \<open>
  C3 as the spec states it fails: a cell holding one space is neither missing nor NaN nor
  the empty string, and \<open>clean_cell_value\<close> returns the empty string for it.
\<close>

theorem clean_cell_value_iff_counterexample:
  "\<not> (clean_cell_value (Str [32]) = [] \<longleftrightarrow> missing_or_empty (Str [32]))"
  by (simp add: clean_cell_value_def strip_def isspace_def missing_or_empty_def)

section \<open>Properties of the readers and of short check rows\<close>

lemma json_target_empty: "json_target lib [] = Inl ([WarnNoJson], Continue)"
  by (simp add: json_target_def)

lemma dds_snoc: "drop_duplicates_seen seen (ys @ [x]) =
   drop_duplicates_seen seen ys @ (if x \<in> set seen \<union> set ys then [] else [x])"
  by (induction ys arbitrary: seen) auto

lemma dd_snoc: "drop_duplicates (ys @ [x]) = (if x \<in> set ys then drop_duplicates ys else drop_duplicates ys @ [x])"
  by (simp add: drop_duplicates_def dds_snoc)

lemma dds_set: "set (drop_duplicates_seen seen xs) = set xs - set seen"
  by (induction xs arbitrary: seen) auto

lemma dds_distinct: "distinct (drop_duplicates_seen seen xs)"
  by (induction xs arbitrary: seen) (auto simp: dds_set)

lemma col_index_Some: "c \<in> set cols \<Longrightarrow> \<exists>k. col_index cols c = Some k \<and> k < length cols"
  by (induction cols) auto

lemma col_index_None: "c \<notin> set cols \<Longrightarrow> col_index cols c = None"
  by (induction cols) auto

lemma length_fit: "length (fit n r) = n"
  by (simp add: fit_def)

lemma series_get_first:
  assumes "c \<in> set (columns df)" and "rows df = r # rs"
  shows "series_get (columns df) (fit (length (columns df)) r) c = Inr (first_cell df c)"
proof -
  from assms(1) obtain k where k: "col_index (columns df) c = Some k" "k < length (columns df)"
    using col_index_Some by blast
  with assms(2) show ?thesis
    by (simp add: series_get_def first_cell_def iterrows_def length_fit)
qed

lemma remove_dashes_no_dash: "45 \<notin> set (remove_dashes s)"
  by (simp add: remove_dashes_def)

lemma set_strip_subset: "set (strip s) \<subseteq> set s"
proof -
  obtain pre suf where "s = pre @ strip s @ suf" using strip_decomp by blast
  then have "set s = set pre \<union> set (strip s) \<union> set suf" by (metis set_append Un_assoc)
  then show ?thesis by blast
qed

lemma read_task_info_ok:
  assumes "col_credit_code \<in> set (columns df)" "col_data_date \<in> set (columns df)" "rows df \<noteq> []"
  shows "read_task_info df =
     (if normalized_date df = [] then Inl (ValueError DataDateEmpty)
      else Inr (clean_cell_value (first_cell df col_credit_code), normalized_date df))"
proof -
  from assms(3) obtain r rs where r: "rows df = r # rs" by (cases "rows df") auto
  from assms(1) have ne: "columns df \<noteq> []" by auto
  have it: "iterrows df = fit (length (columns df)) r # map (fit (length (columns df))) rs"
    by (simp add: iterrows_def r)
  show ?thesis
    using assms ne r
    by (simp add: read_task_info_def df_empty_def it series_get_first normalized_date_def
        dashless_date_def Let_def)
qed

text \<open>
  C5 (as the code has it). \<open>read_task_info\<close> fails exactly when the credit-code
  column or the data-date column is absent, the table has no rows, or the data date of the
  first row is empty after every \<open>-\<close> is removed and the rest is trimmed of whitespace.
  Every failure is a SchemaError. On success the data date holds no \<open>-\<close> and the
  credit code is the normalized cell of the first row.
\<close>

theorem read_task_info_fails_iff:
  "(isl (read_task_info df) \<longleftrightarrow>
      col_credit_code \<notin> set (columns df) \<or> col_data_date \<notin> set (columns df) \<or>
      rows df = [] \<or> normalized_date df = []) \<and>
   (\<forall>e. read_task_info df = Inl e \<longrightarrow> is_schema_error e) \<and>
   (\<forall>cc dd. read_task_info df = Inr (cc, dd) \<longrightarrow>
      45 \<notin> set dd \<and> dd = normalized_date df \<and>
      cc = clean_cell_value (first_cell df col_credit_code))"
proof (cases "col_credit_code \<in> set (columns df) \<and> col_data_date \<in> set (columns df) \<and> rows df \<noteq> []")
  case True
  then have eq: "read_task_info df =
     (if normalized_date df = [] then Inl (ValueError DataDateEmpty)
      else Inr (clean_cell_value (first_cell df col_credit_code), normalized_date df))"
    by (simp add: read_task_info_ok)
  have "45 \<notin> set (normalized_date df)"
    unfolding normalized_date_def dashless_date_def
    using set_strip_subset remove_dashes_no_dash by blast
  with True eq show ?thesis by auto
next
  case False
  then have "read_task_info df = Inl (ValueError TaskSheetEmpty) \<or>
     (\<exists>m. read_task_info df = Inl (ValueError (TaskColumnsMissing m)))"
    by (auto simp: read_task_info_def df_empty_def Let_def)
  with False show ?thesis by auto
qed


text \<open>
  The theorem at the task frame of the end-to-end scenario, and at the same frame without
  rows.
\<close>

theorem read_task_info_fails_iff_witness:
  "read_task_info task_frame = Inr (ascii ''9111010000'', ascii ''20240105'') \<and>
   45 \<notin> set (ascii ''20240105'') \<and>
   normalized_date task_frame = ascii ''20240105'' \<and>
   read_task_info (task_frame\<lparr>rows := []\<rparr>) = Inl (ValueError TaskSheetEmpty) \<and>
   is_schema_error (ValueError TaskSheetEmpty)"
proof -
  have ok: "read_task_info task_frame = Inr (ascii ''9111010000'', ascii ''20240105'')"
    by (simp add: read_task_info_def task_frame_def df_empty_def iterrows_def fit_def
        series_get_def col_credit_code_def col_data_date_def clean_cell_value_def strip_def
        isspace_def remove_dashes_def ascii_def Let_def)
  have bad: "read_task_info (task_frame\<lparr>rows := []\<rparr>) = Inl (ValueError TaskSheetEmpty)"
    by (simp add: read_task_info_def df_empty_def)
  from read_task_info_fails_iff [of task_frame] ok
  have a: "45 \<notin> set (ascii ''20240105'')"
    and b: "normalized_date task_frame = ascii ''20240105''"
    by (blast, metis)
  from read_task_info_fails_iff [of "task_frame\<lparr>rows := []\<rparr>"] bad
  have c: "is_schema_error (ValueError TaskSheetEmpty)" by blast
  show ?thesis by (intro conjI) (rule ok a b bad c)+
qed

text \<open>
  C5 as the spec states it fails: for the data date \<open>"- -"\<close> both columns are there,
  the table has a row, and the date without its dashes is one space, not the empty string;
  \<open>read_task_info\<close> fails all the same, since it trims before it tests.
\<close>

theorem read_task_info_dashes_counterexample:
  "\<not> (isl (read_task_info task_frame_dashes) \<longleftrightarrow>
        col_credit_code \<notin> set (columns task_frame_dashes) \<or>
        col_data_date \<notin> set (columns task_frame_dashes) \<or>
        rows task_frame_dashes = [] \<or> dashless_date task_frame_dashes = [])"
  by (simp add: read_task_info_def task_frame_dashes_def df_empty_def iterrows_def fit_def
      series_get_def col_credit_code_def col_data_date_def clean_cell_value_def strip_def
      isspace_def remove_dashes_def ascii_def Let_def dashless_date_def first_cell_def)

lemma select_business_ok:
  assumes "col_business_name \<in> set (columns df)" "col_business_en_name \<in> set (columns df)"
  shows "\<exists>pairs. select_business df = Inr pairs \<and> length pairs = length (rows df)"
proof -
  from assms obtain k l where "col_index (columns df) col_business_name = Some k"
    "col_index (columns df) col_business_en_name = Some l"
    using col_index_Some by blast
  then show ?thesis by (simp add: select_business_def iterrows_def)
qed

lemma select_catalog_frame: "select_business (catalog_frame pairs) = Inr pairs"
  by (simp add: select_business_def catalog_frame_def iterrows_def fit_def
      col_business_name_def col_business_en_name_def comp_def case_prod_beta)

lemma read_catalog_frame:
  "pairs \<noteq> [] \<Longrightarrow> read_business_info (catalog_frame pairs) = Inr (drop_duplicates pairs)"
  using select_catalog_frame [of pairs]
  by (simp add: read_business_info_def df_empty_def)
     (simp add: catalog_frame_def)

lemma col_index_first:
  "col_index cols c = Some k \<longleftrightarrow> k < length cols \<and> cols ! k = c \<and> c \<notin> set (take k cols)"
proof (induction cols arbitrary: k)
  case Nil
  then show ?case by simp
next
  case (Cons x xs)
  show ?case
  proof (cases k)
    case 0
    then show ?thesis by auto
  next
    case (Suc j)
    with Cons [of j] show ?thesis by auto
  qed
qed

lemma select_business_at:
  assumes "k < length (columns df)" "columns df ! k = col_business_name"
    "col_business_name \<notin> set (take k (columns df))"
    "l < length (columns df)" "columns df ! l = col_business_en_name"
    "col_business_en_name \<notin> set (take l (columns df))"
  shows "select_business df = Inr (map (\<lambda>r. (r ! k, r ! l)) (iterrows df))"
proof -
  from assms have "col_index (columns df) col_business_name = Some k"
    "col_index (columns df) col_business_en_name = Some l"
    by (simp_all add: col_index_first)
  with assms(1,4) show ?thesis
    by (simp add: select_business_def iterrows_def length_fit)
qed

text \<open>
  C6. \<open>read_business_info\<close> returns the empty list for a table without rows, and the
  caller then takes the one default form. For a table with rows and both required columns
  it never fails. The pairs it returns are read under the two labels: where the form-name
  label first stands at position \<open>k\<close> of the header and the form-code label at
  position \<open>l\<close>, the result is the list of the pairs (cell \<open>k\<close>, cell \<open>l\<close>) of
  the rows, in order, with duplicates dropped. Dropping duplicates keeps first-seen order:
  a pair is appended to the output exactly when it was not seen before, and earlier output
  never changes; the output is duplicate-free and holds the same pairs. For the rows
  (A,X), (A,X), (B,Y) the result is (A,X), (B,Y).
\<close>

theorem read_business_info_dedup:
  "(rows df = [] \<longrightarrow> read_business_info df = Inr []) \<and>
   forms_to_process [] = [(Str default_form_name, Str (ascii ''Default''))] \<and>
   (\<not> df_empty df \<and> col_business_name \<in> set (columns df) \<and>
    col_business_en_name \<in> set (columns df) \<longrightarrow>
      (\<exists>business_list. read_business_info df = Inr business_list)) \<and>
   (\<forall>k l. \<not> df_empty df \<and>
      k < length (columns df) \<and> columns df ! k = col_business_name \<and>
      col_business_name \<notin> set (take k (columns df)) \<and>
      l < length (columns df) \<and> columns df ! l = col_business_en_name \<and>
      col_business_en_name \<notin> set (take l (columns df)) \<longrightarrow>
      read_business_info df = Inr (drop_duplicates (map (\<lambda>r. (r ! k, r ! l)) (iterrows df)))) \<and>
   drop_duplicates ([] :: business list) = [] \<and>
   (\<forall>ys p. drop_duplicates (ys @ [p :: business]) =
      (if p \<in> set ys then drop_duplicates ys else drop_duplicates ys @ [p])) \<and>
   distinct (drop_duplicates (ps :: business list)) \<and>
   set (drop_duplicates ps) = set ps \<and>
   ((a, x) \<noteq> (b, y) \<longrightarrow>
      read_business_info (catalog_frame [(a, x), (a, x), (b, y)]) = Inr [(a, x), (b, y)])"
proof -
  have 1: "rows df = [] \<longrightarrow> read_business_info df = Inr []"
    by (simp add: read_business_info_def df_empty_def)
  have 2: "forms_to_process [] = [(Str default_form_name, Str (ascii ''Default''))]"
    by (simp add: forms_to_process_def default_business_def)
  have 3: "\<not> df_empty df \<and> col_business_name \<in> set (columns df) \<and>
    col_business_en_name \<in> set (columns df) \<longrightarrow>
      (\<exists>business_list. read_business_info df = Inr business_list)"
  proof
    assume h: "\<not> df_empty df \<and> col_business_name \<in> set (columns df) \<and>
      col_business_en_name \<in> set (columns df)"
    then obtain pairs where "select_business df = Inr pairs"
      using select_business_ok by blast
    with h have "read_business_info df = Inr (drop_duplicates pairs)"
      by (simp add: read_business_info_def)
    then show "\<exists>business_list. read_business_info df = Inr business_list" by blast
  qed
  have 4: "\<forall>k l. \<not> df_empty df \<and>
      k < length (columns df) \<and> columns df ! k = col_business_name \<and>
      col_business_name \<notin> set (take k (columns df)) \<and>
      l < length (columns df) \<and> columns df ! l = col_business_en_name \<and>
      col_business_en_name \<notin> set (take l (columns df)) \<longrightarrow>
      read_business_info df = Inr (drop_duplicates (map (\<lambda>r. (r ! k, r ! l)) (iterrows df)))"
  proof (intro allI impI)
    fix k l
    assume h: "\<not> df_empty df \<and>
      k < length (columns df) \<and> columns df ! k = col_business_name \<and>
      col_business_name \<notin> set (take k (columns df)) \<and>
      l < length (columns df) \<and> columns df ! l = col_business_en_name \<and>
      col_business_en_name \<notin> set (take l (columns df))"
    then have s: "select_business df = Inr (map (\<lambda>r. (r ! k, r ! l)) (iterrows df))"
      by (simp add: select_business_at)
    from h have "col_business_name \<in> set (columns df)" "col_business_en_name \<in> set (columns df)"
      by (metis nth_mem)+
    with h s show "read_business_info df
        = Inr (drop_duplicates (map (\<lambda>r. (r ! k, r ! l)) (iterrows df)))"
      by (simp add: read_business_info_def)
  qed
  have 5: "drop_duplicates ([] :: business list) = []" by (simp add: drop_duplicates_def)
  have 6: "\<forall>ys p. drop_duplicates (ys @ [p :: business]) =
      (if p \<in> set ys then drop_duplicates ys else drop_duplicates ys @ [p])"
    by (simp add: dd_snoc)
  have 7: "distinct (drop_duplicates ps)" by (simp add: drop_duplicates_def dds_distinct)
  have 8: "set (drop_duplicates ps) = set ps" by (simp add: drop_duplicates_def dds_set)
  have 9: "(a, x) \<noteq> (b, y) \<longrightarrow>
      read_business_info (catalog_frame [(a, x), (a, x), (b, y)]) = Inr [(a, x), (b, y)]"
    by (auto simp add: read_catalog_frame drop_duplicates_def)
  from 1 2 3 4 5 6 7 8 9 show ?thesis by blast
qed

text \<open>
  The theorem at the catalog A/X, A/X, B/Y, at the empty catalog, and at a catalog whose
  two required columns come after a column of row numbers: the numbers 1 and 2 differ, the
  pairs under the labels are equal, and one form is returned.
\<close>

theorem read_business_info_dedup_witness:
  "read_business_info (catalog_frame
      [(Str (ascii ''A''), Str (ascii ''X'')), (Str (ascii ''A''), Str (ascii ''X'')),
       (Str (ascii ''B''), Str (ascii ''Y''))])
     = Inr [(Str (ascii ''A''), Str (ascii ''X'')), (Str (ascii ''B''), Str (ascii ''Y''))] \<and>
   read_business_info (catalog_frame []) = Inr [] \<and>
   \<not> df_empty numbered_catalog \<and>
   columns numbered_catalog ! 1 = col_business_name \<and>
   columns numbered_catalog ! 2 = col_business_en_name \<and>
   read_business_info numbered_catalog = Inr [(Str (ascii ''A''), Str (ascii ''X''))]"
proof -
  let ?a = "Str (ascii ''A'')" and ?x = "Str (ascii ''X'')"
  let ?b = "Str (ascii ''B'')" and ?y = "Str (ascii ''Y'')"
  have ne: "(?a, ?x) \<noteq> (?b, ?y)" by (simp add: ascii_def)
  have r0: "rows (catalog_frame []) = []" by (simp add: catalog_frame_def)
  have r1: "\<not> df_empty numbered_catalog \<and>
      1 < length (columns numbered_catalog) \<and> columns numbered_catalog ! 1 = col_business_name \<and>
      col_business_name \<notin> set (take 1 (columns numbered_catalog)) \<and>
      2 < length (columns numbered_catalog) \<and> columns numbered_catalog ! 2 = col_business_en_name \<and>
      col_business_en_name \<notin> set (take 2 (columns numbered_catalog))"
    by (simp add: numbered_catalog_def df_empty_def col_business_name_def col_business_en_name_def
        ascii_def)
  from read_business_info_dedup [of numbered_catalog "[]" ?a ?x ?b ?y] ne r1
  have e1: "read_business_info (catalog_frame [(?a, ?x), (?a, ?x), (?b, ?y)]) = Inr [(?a, ?x), (?b, ?y)]"
    and e2: "read_business_info numbered_catalog
       = Inr (drop_duplicates (map (\<lambda>r. (r ! 1, r ! 2)) (iterrows numbered_catalog)))"
    by blast+
  from e2 have e3: "read_business_info numbered_catalog = Inr [(?a, ?x)]"
    by (simp add: numbered_catalog_def iterrows_def fit_def drop_duplicates_def)
  from read_business_info_dedup [of "catalog_frame []" "[]" ?a ?x ?b ?y] r0
  have e0: "read_business_info (catalog_frame []) = Inr []" by blast
  from e0 e1 e3 r1 show ?thesis by simp
qed

text \<open>
  C10. A check row with fewer than ten fields is skipped with the warning that the J
  field holds no JSON: the fields out of range are read as the empty string, nothing is
  raised, and the loop goes on with the records it had.
\<close>

theorem short_check_row_skipped:
  "length check_row < 10 \<Longrightarrow>
   process_check_row lib excel_file business_name check_row = ([WarnNoJson], Continue) \<and>
   process_rows lib excel_file business_name [check_row] dat_strings = ([WarnNoJson], Inr dat_strings) \<and>
   is_warning WarnNoJson"
proof -
  assume "length check_row < 10"
  then have "process_check_row lib excel_file business_name check_row = ([WarnNoJson], Continue)"
    by (simp add: process_check_row_def field_def clean_cell_value_def json_target_empty)
  then show ?thesis by simp
qed

text \<open>
  The theorem at a check row of three fields.
\<close>

theorem short_check_row_skipped_witness:
  "length [NaN, NaN, Str (ascii ''A1'')] < 10 \<and>
   process_check_row example_lib (scenario NaN NaN) scenario_form [NaN, NaN, Str (ascii ''A1'')]
     = ([WarnNoJson], Continue)"
  using short_check_row_skipped [of "[NaN, NaN, Str (ascii ''A1'')]" example_lib
      "scenario NaN NaN" scenario_form "[]"]
  by simp

section \<open>Encoding, digits and the packed artifact\<close>

lemma utf8_char_ok:
  "c < 0x110000 \<and> \<not> (0xD800 \<le> c \<and> c \<le> 0xDFFF) \<Longrightarrow> \<exists>bs. utf8_char c = Inr bs \<and> bs \<noteq> []"
  by (simp add: utf8_char_def)

lemma utf8_char_bad:
  "\<not> (c < 0x110000 \<and> \<not> (0xD800 \<le> c \<and> c \<le> 0xDFFF)) \<Longrightarrow> utf8_char c = Inl UnicodeEncodeError"
  by (auto simp add: utf8_char_def)

lemma encode_utf8_ok: "encodable s \<Longrightarrow> \<exists>bs. encode_utf8 s = Inr bs"
proof (induction s)
  case Nil
  then show ?case by simp
next
  case (Cons c s)
  then obtain bs where "utf8_char c = Inr bs" using utf8_char_ok [of c] by (auto simp: encodable_def)
  moreover from Cons obtain rest where "encode_utf8 s = Inr rest" by (auto simp: encodable_def)
  ultimately show ?case by simp
qed

lemma encode_utf8_bad: "\<not> encodable s \<Longrightarrow> encode_utf8 s = Inl UnicodeEncodeError"
proof (induction s)
  case Nil
  then show ?case by (simp add: encodable_def)
next
  case (Cons c s)
  show ?case
  proof (cases "c < 0x110000 \<and> \<not> (0xD800 \<le> c \<and> c \<le> 0xDFFF)")
    case True
    with Cons.prems have "\<not> encodable s" by (simp add: encodable_def)
    then have "encode_utf8 s = Inl UnicodeEncodeError" by (rule Cons.IH)
    moreover from True obtain bs where "utf8_char c = Inr bs" using utf8_char_ok by blast
    ultimately show ?thesis by simp
  next
    case False
    then have "utf8_char c = Inl UnicodeEncodeError" by (rule utf8_char_bad)
    then show ?thesis by simp
  qed
qed

lemma encode_utf8_empty_iff: "encode_utf8 s = Inr [] \<longleftrightarrow> s = []"
proof (cases s)
  case Nil
  then show ?thesis by simp
next
  case (Cons c cs)
  show ?thesis
  proof (cases "c < 0x110000 \<and> \<not> (0xD800 \<le> c \<and> c \<le> 0xDFFF)")
    case True
    then obtain bs where "utf8_char c = Inr bs" "bs \<noteq> []" using utf8_char_ok by blast
    with Cons show ?thesis by (simp split: sum.splits)
  next
    case False
    then have "utf8_char c = Inl UnicodeEncodeError" by (rule utf8_char_bad)
    with Cons show ?thesis by simp
  qed
qed

lemma encodable_append [simp]: "encodable (a @ b) \<longleftrightarrow> encodable a \<and> encodable b"
  by (simp add: encodable_def)

lemma encodable_Nil [simp]: "encodable []"
  by (simp add: encodable_def)

lemma encodable_join5:
  "encodable (join [10] [a, b, c, d, e]) \<longleftrightarrow>
     encodable a \<and> encodable b \<and> encodable c \<and> encodable d \<and> encodable e"
  by (simp add: encodable_def)

lemma encodable_join: "list_all encodable xs \<Longrightarrow> encodable (join [10] xs)"
  by (induction "[10::nat]" xs rule: join.induct) (simp_all add: encodable_def)

lemma encodable_digit: "d < 10 \<Longrightarrow> encodable [48 + d]"
  by (simp add: encodable_def)

lemma encodable_str_of_nat: "encodable (str_of_nat n)"
proof (induction n rule: str_of_nat.induct)
  case (1 n)
  show ?case
  proof (cases "n < 10")
    case True
    then show ?thesis by (simp add: encodable_def str_of_nat.simps)
  next
    case False
    with 1 have "encodable (str_of_nat (n div 10))" by simp
    moreover have "encodable [48 + n mod 10]" by (rule encodable_digit) simp
    ultimately show ?thesis using False by (subst str_of_nat.simps) simp
  qed
qed

lemma hex_digit_lower: "d < 16 \<Longrightarrow> lower_hex (hex_digit d)"
  by (simp add: hex_digit_def lower_hex_def)

lemma hexdigest_lower: "list_all lower_hex (hexdigest bs)"
proof -
  have "unat b div 16 < 16" for b :: "8 word"
    using unsigned_less [of b, where 'a = nat] by simp
  then show ?thesis
    by (induction bs) (simp_all add: hexdigest_def hex_digit_lower)
qed

lemma length_hexdigest: "length (hexdigest bs) = 2 * length bs"
  by (induction bs) (simp_all add: hexdigest_def)

lemma lower_hex_encodable: "list_all lower_hex s \<Longrightarrow> encodable s"
  by (induction s) (auto simp: encodable_def lower_hex_def)

lemma encodable_md5: "encodable (get_bytes_md5 lib bs)"
  by (simp add: get_bytes_md5_def lower_hex_encodable hexdigest_lower)



lemma encodable_literals:
  "encodable (ascii ''_'')" "encodable (ascii ''_CHK_'')" "encodable (ascii ''.dat'')"
  by (simp_all add: encodable_def ascii_def)

lemma make_artifact_ok:
  assumes "encodable cc" "encodable dd" "encodable t" "encodable en" "list_all encodable ds"
  shows "\<exists>bytes lbytes.
     encode_utf8 (join [10] ds) = Inr bytes \<and>
     encode_utf8 (join [10] (log_lines lib cc dd t en ds bytes)) = Inr lbytes \<and>
     make_artifact lib cc dd t ds en =
       Inr \<lparr>dat_filename = base_filename cc en dd @ ascii ''.dat'', dat_bytes = bytes,
            log_filename = base_filename cc en dd @ ascii ''.log'', log_bytes = lbytes,
            zip_name = base_filename cc en dd @ ascii ''.zip''\<rparr>"
proof -
  from assms(5) have "encodable (join [10] ds)" by (rule encodable_join)
  then obtain bytes where b: "encode_utf8 (join [10] ds) = Inr bytes"
    using encode_utf8_ok by blast
  have "encodable (join [10] (log_lines lib cc dd t en ds bytes))"
    unfolding log_lines_def encodable_join5
    using assms(1-4)
    by (simp add: base_filename_def encodable_literals encodable_md5 encodable_str_of_nat)
  then obtain lbytes where l: "encode_utf8 (join [10] (log_lines lib cc dd t en ds bytes)) = Inr lbytes"
    using encode_utf8_ok by blast
  from b l show ?thesis by (simp add: make_artifact_def Let_def)
qed


section \<open>Forms without check rows, and the clock\<close>

lemma process_business_data_no_group:
  assumes "check_group = None \<or>
     (\<exists>df. check_group = Some df \<and> get_group df (clean_cell_value (fst business)) = [])"
  shows "process_business_data lib excel_file business check_group =
     ([LogFormHeader (clean_cell_value (fst business)) (clean_cell_value (snd business)),
       WarnNoCheckGroup],
      Inr ([], clean_cell_value (snd business)))"
  using assms by (auto simp add: process_business_data_def Let_def)

lemma no_group_iff:
  "no_group cg business \<longleftrightarrow>
     cg = None \<or> (\<exists>df. cg = Some df \<and> get_group df (clean_cell_value (fst business)) = [])"
  by (cases cg) (simp_all add: no_group_def)

lemma make_artifact_empty:
  "make_artifact lib cc dd t [] en = Inr a \<Longrightarrow> dat_bytes a = []"
  by (auto simp add: make_artifact_def Let_def split: sum.splits)

lemma process_forms_step:
  assumes "process_business_data lib wb business cg = (evs, Inr (ds, en))"
    and "make_artifact lib cc dd (clock k) ds en = Inr a"
  shows "process_forms lib clock wb cg cc dd k (business # rest) =
     (case process_forms lib clock wb cg cc dd (Suc k) rest of
        (evs', Inl e) \<Rightarrow> (evs @ LogZip (zip_name a) # evs', Inl e)
      | (evs', Inr arts) \<Rightarrow> (evs @ LogZip (zip_name a) # evs', Inr (a # arts)))"
  using assms by simp

lemma process_forms_completed:
  "process_forms lib clock wb cg cc dd k forms = (evs, Inr arts) \<Longrightarrow>
     length arts = length forms \<and>
     (\<forall>i<length forms. no_group cg (forms ! i) \<longrightarrow> dat_bytes (arts ! i) = [])"
proof (induction forms arbitrary: k evs arts)
  case Nil
  then show ?case by simp
next
  case (Cons f fs)
  obtain e1 r1 where p: "process_business_data lib wb f cg = (e1, r1)"
    by (cases "process_business_data lib wb f cg")
  from Cons.prems p obtain ds en where r1: "r1 = Inr (ds, en)"
    by (cases r1) auto
  from Cons.prems p r1 obtain a where m: "make_artifact lib cc dd (clock k) ds en = Inr a"
    by (cases "make_artifact lib cc dd (clock k) ds en") auto
  obtain e2 r2 where q: "process_forms lib clock wb cg cc dd (Suc k) fs = (e2, r2)"
    by (cases "process_forms lib clock wb cg cc dd (Suc k) fs")
  from Cons.prems p r1 m q obtain arts' where r2: "r2 = Inr arts'" and arts: "arts = a # arts'"
    by (cases r2) auto
  from Cons.IH [of "Suc k" e2 arts'] q r2 have ih: "length arts' = length fs"
    "\<forall>i<length fs. no_group cg (fs ! i) \<longrightarrow> dat_bytes (arts' ! i) = []"
    by simp_all
  have head: "no_group cg f \<longrightarrow> dat_bytes a = []"
  proof
    assume "no_group cg f"
    then have "cg = None \<or> (\<exists>df. cg = Some df \<and> get_group df (clean_cell_value (fst f)) = [])"
      by (simp add: no_group_iff)
    from process_business_data_no_group [OF this, of lib wb] p r1 have "ds = []" by simp
    with m show "dat_bytes a = []" using make_artifact_empty by blast
  qed
  have "\<forall>i<length (f # fs). no_group cg ((f # fs) ! i) \<longrightarrow> dat_bytes (arts ! i) = []"
  proof (intro allI impI)
    fix i assume "i < length (f # fs)" "no_group cg ((f # fs) ! i)"
    then show "dat_bytes (arts ! i) = []"
      using head ih(2) arts by (cases i) auto
  qed
  with ih(1) arts show ?case by simp
qed

lemma no_group_form_packed:
  assumes "no_group cg business"
    and "encodable cc" "encodable dd" "encodable t"
    and "encodable (clean_cell_value (snd business))"
  shows "\<exists>evs a.
     process_business_data lib wb business cg = (evs, Inr ([], clean_cell_value (snd business))) \<and>
     length (filter is_warning evs) = 1 \<and>
     make_artifact lib cc dd t [] (clean_cell_value (snd business)) = Inr a \<and>
     dat_bytes a = []"
proof -
  let ?en = "clean_cell_value (snd business)"
  let ?evs = "[LogFormHeader (clean_cell_value (fst business)) ?en, WarnNoCheckGroup]"
  from assms(1) have "cg = None \<or>
      (\<exists>df. cg = Some df \<and> get_group df (clean_cell_value (fst business)) = [])"
    by (simp add: no_group_iff)
  then have p: "process_business_data lib wb business cg = (?evs, Inr ([], ?en))"
    by (rule process_business_data_no_group)
  have "list_all encodable []" by simp
  from make_artifact_ok [OF assms(2) assms(3) assms(4) assms(5) this, of lib]
  obtain a where m: "make_artifact lib cc dd t [] ?en = Inr a" by blast
  then have "dat_bytes a = []" by (rule make_artifact_empty)
  moreover have "length (filter is_warning ?evs) = 1" by simp
  ultimately show ?thesis using p m by blast
qed

lemma process_forms_all_no_group:
  assumes "encodable cc" "encodable dd" "\<forall>k. encodable (clock k)"
  shows "\<forall>f\<in>set forms. no_group cg f \<and> encodable (clean_cell_value (snd f)) \<Longrightarrow>
     \<exists>evs arts. process_forms lib clock wb cg cc dd k forms = (evs, Inr arts) \<and>
       length arts = length forms \<and> (\<forall>a\<in>set arts. dat_bytes a = [])"
proof (induction forms arbitrary: k)
  case Nil
  show ?case by simp
next
  case (Cons f fs)
  from Cons.prems have f: "no_group cg f" "encodable (clean_cell_value (snd f))" by simp_all
  from assms(3) have ck: "encodable (clock k)" by simp
  from no_group_form_packed [OF f(1) assms(1) assms(2) ck f(2), of lib wb]
  obtain evs a where
    p: "process_business_data lib wb f cg = (evs, Inr ([], clean_cell_value (snd f)))" and
    m: "make_artifact lib cc dd (clock k) [] (clean_cell_value (snd f)) = Inr a" and
    d: "dat_bytes a = []" by blast
  from Cons.prems have "\<forall>g\<in>set fs. no_group cg g \<and> encodable (clean_cell_value (snd g))" by simp
  from Cons.IH [OF this, of "Suc k"] obtain evs' arts where
    q: "process_forms lib clock wb cg cc dd (Suc k) fs = (evs', Inr arts)"
    "length arts = length fs" "\<forall>a\<in>set arts. dat_bytes a = []" by blast
  from process_forms_step [where clock = clock and k = k and rest = fs, OF p m] q(1)
  have "process_forms lib clock wb cg cc dd k (f # fs) = (evs @ LogZip (zip_name a) # evs', Inr (a # arts))"
    by simp
  with q(2,3) d show ?case by simp
qed

text \<open>
  C7. When there is no check-result index, or the index has no group for the form's name,
  \<open>process_business_data\<close> returns no record and logs exactly one warning, and nothing
  is raised. The loop of \<open>main\<close> (the identity strings, the form's code and the time
  stamp being encodable) then packs the form's artifact, whose data file is the empty byte
  string, and goes on with the forms that follow: the artifact is put before theirs. In
  every completed run there is one artifact for each form, in order, and the artifact of
  every form without check rows has an empty data file. When no form has check rows, as
  when the check-result sheet is absent, the run completes.
\<close>

theorem form_without_check_group:
  assumes "no_group check_group business"
    and "encodable credit_code" "encodable data_date" "encodable (clock k)"
    and "encodable (clean_cell_value (snd business))"
  shows "(\<exists>evs a.
       process_business_data lib excel_file business check_group
         = (evs, Inr ([], clean_cell_value (snd business))) \<and>
       length (filter is_warning evs) = 1 \<and>
       make_artifact lib credit_code data_date (clock k) [] (clean_cell_value (snd business))
         = Inr a \<and>
       dat_bytes a = [] \<and>
       process_forms lib clock excel_file check_group credit_code data_date k (business # rest)
         = (case process_forms lib clock excel_file check_group credit_code data_date (Suc k) rest of
              (evs', Inl e) \<Rightarrow> (evs @ LogZip (zip_name a) # evs', Inl e)
            | (evs', Inr arts) \<Rightarrow> (evs @ LogZip (zip_name a) # evs', Inr (a # arts)))) \<and>
     (\<forall>forms j evs arts.
        process_forms lib clock excel_file check_group credit_code data_date j forms = (evs, Inr arts)
        \<longrightarrow> length arts = length forms \<and>
            (\<forall>i<length forms. no_group check_group (forms ! i) \<longrightarrow> dat_bytes (arts ! i) = [])) \<and>
     (\<forall>forms j.
        (\<forall>n. encodable (clock n)) \<and>
        (\<forall>f\<in>set forms. no_group check_group f \<and> encodable (clean_cell_value (snd f)))
        \<longrightarrow> (\<exists>evs arts.
              process_forms lib clock excel_file check_group credit_code data_date j forms
                = (evs, Inr arts) \<and>
              length arts = length forms \<and> (\<forall>a\<in>set arts. dat_bytes a = [])))"
proof (intro conjI)
  from no_group_form_packed [OF assms, of lib excel_file]
  obtain evs a where
    p: "process_business_data lib excel_file business check_group
         = (evs, Inr ([], clean_cell_value (snd business)))" and
    w: "length (filter is_warning evs) = 1" and
    m: "make_artifact lib credit_code data_date (clock k) [] (clean_cell_value (snd business)) = Inr a" and
    d: "dat_bytes a = []" by blast
  from process_forms_step [where clock = clock and k = k and rest = rest, OF p m] p w m d
  show "\<exists>evs a.
       process_business_data lib excel_file business check_group
         = (evs, Inr ([], clean_cell_value (snd business))) \<and>
       length (filter is_warning evs) = 1 \<and>
       make_artifact lib credit_code data_date (clock k) [] (clean_cell_value (snd business))
         = Inr a \<and>
       dat_bytes a = [] \<and>
       process_forms lib clock excel_file check_group credit_code data_date k (business # rest)
         = (case process_forms lib clock excel_file check_group credit_code data_date (Suc k) rest of
              (evs', Inl e) \<Rightarrow> (evs @ LogZip (zip_name a) # evs', Inl e)
            | (evs', Inr arts) \<Rightarrow> (evs @ LogZip (zip_name a) # evs', Inr (a # arts)))"
    by blast
next
  show "\<forall>forms j evs arts.
        process_forms lib clock excel_file check_group credit_code data_date j forms = (evs, Inr arts)
        \<longrightarrow> length arts = length forms \<and>
            (\<forall>i<length forms. no_group check_group (forms ! i) \<longrightarrow> dat_bytes (arts ! i) = [])"
    using process_forms_completed by blast
next
  show "\<forall>forms j.
        (\<forall>n. encodable (clock n)) \<and>
        (\<forall>f\<in>set forms. no_group check_group f \<and> encodable (clean_cell_value (snd f)))
        \<longrightarrow> (\<exists>evs arts.
              process_forms lib clock excel_file check_group credit_code data_date j forms
                = (evs, Inr arts) \<and>
              length arts = length forms \<and> (\<forall>a\<in>set arts. dat_bytes a = []))"
    using process_forms_all_no_group [OF assms(2) assms(3)] by blast
qed

text \<open>
  The theorem at a job of two forms, both the default form, which has no group in the
  check frame of the scenario: two artifacts, both with an empty data file.
\<close>

theorem form_without_check_group_witness:
  "no_group (Some (check_frame NaN NaN)) default_business \<and>
   encodable (ascii ''9111010000'') \<and> encodable (ascii ''20240105'') \<and>
   encodable (example_clock 0) \<and> encodable (clean_cell_value (snd default_business)) \<and>
   map_sum id (map dat_bytes)
     (snd (process_forms example_lib example_clock (scenario NaN NaN) (Some (check_frame NaN NaN))
        (ascii ''9111010000'') (ascii ''20240105'') 0 [default_business, default_business]))
     = Inr [[], []]"
proof -
  let ?cg = "Some (check_frame NaN NaN)"
  have g: "no_group ?cg default_business"
    by (simp add: no_group_def get_group_def check_frame_def scenario_row_def iterrows_def fit_def
        series_get_def col_check_form_def default_business_def default_form_name_def
        scenario_form_def clean_cell_value_def strip_def isspace_def)
  have h: "encodable (ascii ''9111010000'')" "encodable (ascii ''20240105'')"
    "encodable (example_clock 0)" "encodable (clean_cell_value (snd default_business))"
    by (simp_all add: encodable_def ascii_def example_clock_def default_business_def
        clean_cell_value_def strip_def isspace_def)
  have c: "\<forall>n. encodable (example_clock n)"
    by (simp add: encodable_def ascii_def example_clock_def)
  from form_without_check_group [where lib = example_lib and excel_file = "scenario NaN NaN"
      and clock = example_clock and k = 0 and rest = "[]", OF g h]
  have "\<forall>forms j.
        (\<forall>n. encodable (example_clock n)) \<and>
        (\<forall>f\<in>set forms. no_group ?cg f \<and> encodable (clean_cell_value (snd f)))
        \<longrightarrow> (\<exists>evs arts.
              process_forms example_lib example_clock (scenario NaN NaN) ?cg
                (ascii ''9111010000'') (ascii ''20240105'') j forms = (evs, Inr arts) \<and>
              length arts = length forms \<and> (\<forall>a\<in>set arts. dat_bytes a = []))"
    by blast
  with c g h(4) obtain evs arts where
    r: "process_forms example_lib example_clock (scenario NaN NaN) ?cg
          (ascii ''9111010000'') (ascii ''20240105'') 0 [default_business, default_business]
        = (evs, Inr arts)"
    "length arts = length [default_business, default_business]" "\<forall>a\<in>set arts. dat_bytes a = []"
    by (metis (no_types, lifting) set_ConsD empty_iff empty_set)
  from r(2,3) have "map dat_bytes arts = [[], []]"
    by (cases arts; cases "tl arts"; cases "tl (tl arts)") auto
  with r(1) g h show ?thesis by simp
qed

lemma encodable_base:
  "encodable (base_filename cc en dd @ ascii ''.dat'') \<longleftrightarrow> encodable cc \<and> encodable en \<and> encodable dd"
  by (auto simp add: base_filename_def encodable_literals)

lemma make_artifact_cases:
  "make_artifact lib cc dd t ds en =
     (if encodable (join [10] ds) \<and> encodable cc \<and> encodable en \<and> encodable dd \<and> encodable t
      then make_artifact lib cc dd t ds en
      else Inl UnicodeEncodeError)"
proof (cases "encodable (join [10] ds)")
  case False
  then show ?thesis by (simp add: make_artifact_def encode_utf8_bad)
next
  case True
  then obtain bytes where b: "encode_utf8 (join [10] ds) = Inr bytes"
    using encode_utf8_ok by blast
  show ?thesis
  proof (cases "encodable cc \<and> encodable en \<and> encodable dd \<and> encodable t")
    case True
    with \<open>encodable (join [10] ds)\<close> show ?thesis by simp
  next
    case False
    then have "\<not> encodable (join [10] (log_lines lib cc dd t en ds bytes))"
      unfolding log_lines_def encodable_join5 encodable_base by blast
    then have "encode_utf8 (join [10] (log_lines lib cc dd t en ds bytes)) = Inl UnicodeEncodeError"
      by (rule encode_utf8_bad)
    with b False show ?thesis by (simp add: make_artifact_def Let_def)
  qed
qed

lemma make_artifact_clock:
  assumes "encodable t" "encodable u"
  shows "rel_sum (=) same_but_time (make_artifact lib cc dd t ds en) (make_artifact lib cc dd u ds en)"
proof (cases "encodable (join [10] ds) \<and> encodable cc \<and> encodable en \<and> encodable dd")
  case False
  then have "make_artifact lib cc dd t ds en = Inl UnicodeEncodeError"
    "make_artifact lib cc dd u ds en = Inl UnicodeEncodeError"
    using make_artifact_cases [of lib cc dd t ds en] make_artifact_cases [of lib cc dd u ds en]
    by auto
  then show ?thesis by simp
next
  case True
  then obtain bytes where b: "encode_utf8 (join [10] ds) = Inr bytes"
    using encode_utf8_ok by blast
  have "encodable (join [10] (log_lines lib cc dd t en ds bytes))"
    unfolding log_lines_def encodable_join5 encodable_base
    using True assms by (simp add: encodable_md5 encodable_str_of_nat)
  then obtain lt where lt: "encode_utf8 (join [10] (log_lines lib cc dd t en ds bytes)) = Inr lt"
    using encode_utf8_ok by blast
  have "encodable (join [10] (log_lines lib cc dd u en ds bytes))"
    unfolding log_lines_def encodable_join5 encodable_base
    using True assms by (simp add: encodable_md5 encodable_str_of_nat)
  then obtain lu where lu: "encode_utf8 (join [10] (log_lines lib cc dd u en ds bytes)) = Inr lu"
    using encode_utf8_ok by blast
  from lt lu have "\<exists>name digest size t' u' count.
        encode_utf8 (join [10] [name, digest, size, t', count]) = Inr lt \<and>
        encode_utf8 (join [10] [name, digest, size, u', count]) = Inr lu"
    unfolding log_lines_def by blast
  with b lt lu show ?thesis
    by (simp add: make_artifact_def Let_def same_but_time_def)
qed

lemma process_forms_clock:
  assumes "\<forall>k. encodable (c1 k) \<and> encodable (c2 k)"
  shows "fst (process_forms lib c1 wb cg cc dd k fs) = fst (process_forms lib c2 wb cg cc dd k fs) \<and>
     rel_sum (=) (list_all2 same_but_time)
       (snd (process_forms lib c1 wb cg cc dd k fs)) (snd (process_forms lib c2 wb cg cc dd k fs))"
proof (induction fs arbitrary: k)
  case Nil
  show ?case by simp
next
  case (Cons f fs)
  obtain evs res where p: "process_business_data lib wb f cg = (evs, res)" by (cases "process_business_data lib wb f cg")
  show ?case
  proof (cases res)
    case (Inl e)
    with p show ?thesis by simp
  next
    case (Inr pr)
    obtain ds en where pr: "pr = (ds, en)" by (cases pr)
    from assms have "rel_sum (=) same_but_time (make_artifact lib cc dd (c1 k) ds en)
        (make_artifact lib cc dd (c2 k) ds en)"
      by (simp add: make_artifact_clock)
    then consider (fail) e where "make_artifact lib cc dd (c1 k) ds en = Inl e"
        "make_artifact lib cc dd (c2 k) ds en = Inl e"
      | (ok) a b where "make_artifact lib cc dd (c1 k) ds en = Inr a"
        "make_artifact lib cc dd (c2 k) ds en = Inr b" "same_but_time a b"
      by (cases "make_artifact lib cc dd (c1 k) ds en"; cases "make_artifact lib cc dd (c2 k) ds en")
        simp_all
    then show ?thesis
    proof cases
      case fail
      with p Inr pr show ?thesis by simp
    next
      case ok
      obtain ev1 r1 where q1: "process_forms lib c1 wb cg cc dd (Suc k) fs = (ev1, r1)"
        by (cases "process_forms lib c1 wb cg cc dd (Suc k) fs")
      obtain ev2 r2 where q2: "process_forms lib c2 wb cg cc dd (Suc k) fs = (ev2, r2)"
        by (cases "process_forms lib c2 wb cg cc dd (Suc k) fs")
      from Cons.IH [of "Suc k"] q1 q2 have ih: "ev1 = ev2" "rel_sum (=) (list_all2 same_but_time) r1 r2"
        by simp_all
      from ok(3) have z: "zip_name a = zip_name b" by (simp add: same_but_time_def)
      from ih(2) consider (tfail) e where "r1 = Inl e" "r2 = Inl e"
        | (tok) as bs where "r1 = Inr as" "r2 = Inr bs" "list_all2 same_but_time as bs"
        by (cases r1; cases r2) simp_all
      then show ?thesis
      proof cases
        case tfail
        with p Inr pr ok q1 q2 ih(1) z show ?thesis by simp
      next
        case tok
        with p Inr pr ok q1 q2 ih(1) z show ?thesis by simp
      qed
    qed
  qed
qed

lemma same_but_time_dat: "list_all2 same_but_time as bs \<Longrightarrow> map dat_bytes as = map dat_bytes bs"
  by (induction rule: list_all2_induct) (simp_all add: same_but_time_def)

lemma process_forms_clock_pair:
  assumes "\<forall>k. encodable (c1 k) \<and> encodable (c2 k)"
    and "process_forms lib c1 wb cg cc dd k fs = (e1, r1)"
    and "process_forms lib c2 wb cg cc dd k fs = (e2, r2)"
  shows "e1 = e2 \<and> rel_sum (=) (list_all2 same_but_time) r1 r2"
  using process_forms_clock [OF assms(1), of lib wb cg cc dd k fs] assms(2,3) by simp

lemma process_forms_clock_length:
  assumes "\<forall>k. encodable (c1 k) \<and> encodable (c2 k)"
    and "process_forms lib c1 wb cg cc dd k fs = (e1, Inr as)"
    and "process_forms lib c2 wb cg cc dd k fs = (e2, Inr bs)"
  shows "length as = length bs"
  using process_forms_clock_pair [OF assms] by (auto dest: list_all2_lengthD)

lemma run_job_clock:
  assumes "\<forall>k. encodable (c1 k) \<and> encodable (c2 k)"
  shows "fst (run_job lib c1 wb) = fst (run_job lib c2 wb) \<and>
     rel_sum (=) (list_all2 same_but_time) (snd (run_job lib c1 wb)) (snd (run_job lib c2 wb))"
  unfolding run_job_def Let_def
  by (auto split: option.splits sum.splits prod.splits
      dest: process_forms_clock_pair [OF assms] process_forms_clock_length [OF assms])

text \<open>
  C9. The clock is the only input of a run besides the workbook. For any two clocks (whose
  time stamps can be encoded) the two runs on the same workbook log the same events and
  either fail with the same exception or make the same number of artifacts, pairwise equal
  in their names and data bytes; the two logs of a form encode the same five lines but for
  the time stamp. So the data bytes, and the digest and size lines, are a function of the
  workbook.
\<close>

theorem dat_bytes_independent_of_clock:
  assumes "\<forall>k. encodable (c1 k) \<and> encodable (c2 k)"
  shows "fst (run_job lib c1 wb) = fst (run_job lib c2 wb) \<and>
     rel_sum (=) (list_all2 same_but_time) (snd (run_job lib c1 wb)) (snd (run_job lib c2 wb)) \<and>
     map_sum id (map dat_bytes) (snd (run_job lib c1 wb))
       = map_sum id (map dat_bytes) (snd (run_job lib c2 wb))"
proof -
  from run_job_clock [OF assms, of lib wb]
  have f: "fst (run_job lib c1 wb) = fst (run_job lib c2 wb)"
    and r: "rel_sum (=) (list_all2 same_but_time) (snd (run_job lib c1 wb)) (snd (run_job lib c2 wb))"
    by simp_all
  from r have "map_sum id (map dat_bytes) (snd (run_job lib c1 wb))
       = map_sum id (map dat_bytes) (snd (run_job lib c2 wb))"
    by (cases "snd (run_job lib c1 wb)"; cases "snd (run_job lib c2 wb)")
       (simp_all add: same_but_time_dat)
  with f r show ?thesis by simp
qed

section \<open>What one check row does\<close>

text \<open>
  For any library functions and any workbook: a row whose sample sheet is there is skipped
  with one warning when the sheet is empty, has fewer than three columns or has no row
  whose cleaned third cell is the target; a record is appended only when such a row
  exists, or when the sheet cannot be read. Text that is not JSON is skipped; JSON that is
  true in Python's sense and not an object raises AttributeError, which leaves the loop.
\<close>

lemma json_target_never_appends: "json_target lib j \<noteq> Inl (evs, Append s)"
  by (simp add: json_target_def split: option.splits pyval.splits list.splits prod.splits)

lemma col_index_snoc: "c \<notin> set cols \<Longrightarrow> col_index (cols @ [c]) c = Some (length cols)"
  by (induction cols) auto

lemma iterrows_width: "r \<in> set (iterrows df) \<Longrightarrow> length r = length (columns df)"
  by (auto simp add: iterrows_def length_fit)

lemma zip_with_map: "zip xs (map f xs) = map (\<lambda>x. (x, f x)) xs"
  by (induction xs) auto

lemma marked_row_match:
  assumes "r \<in> set (iterrows df)"
  shows "\<exists>m. m \<in> set (rows (set_column df c (map f (iterrows df)))) \<and>
     series_get (columns (set_column df c (map f (iterrows df)))) m c = Inr (f r)"
proof (cases "col_index (columns df) c")
  case None
  then have nc: "c \<notin> set (columns df)" using col_index_Some by fastforce
  let ?m = "r @ [f r]"
  from None assms have "?m \<in> set (rows (set_column df c (map f (iterrows df))))"
    by (auto simp add: set_column_def zip_with_map)
  moreover from None nc assms have
    "series_get (columns (set_column df c (map f (iterrows df)))) ?m c = Inr (f r)"
    by (simp add: set_column_def series_get_def col_index_snoc iterrows_width nth_append)
  ultimately show ?thesis by blast
next
  case (Some k)
  then have "c \<in> set (columns df)" using col_index_None by fastforce
  with Some have k: "k < length (columns df)" using col_index_Some by fastforce
  let ?m = "r[k := f r]"
  from Some assms have "?m \<in> set (rows (set_column df c (map f (iterrows df))))"
    by (auto simp add: set_column_def zip_with_map)
  moreover from Some k assms have
    "series_get (columns (set_column df c (map f (iterrows df)))) ?m c = Inr (f r)"
    by (simp add: set_column_def series_get_def iterrows_width)
  ultimately show ?thesis by blast
qed

lemma marked_row_origin:
  assumes "m \<in> set (rows (set_column df c (map f (iterrows df))))"
  shows "\<exists>r \<in> set (iterrows df).
     series_get (columns (set_column df c (map f (iterrows df)))) m c = Inr (f r)"
proof (cases "col_index (columns df) c")
  case None
  then have nc: "c \<notin> set (columns df)" using col_index_Some by fastforce
  from None assms obtain r where r: "r \<in> set (iterrows df)" "m = r @ [f r]"
    by (auto simp add: set_column_def zip_with_map)
  with None nc have "series_get (columns (set_column df c (map f (iterrows df)))) m c = Inr (f r)"
    by (simp add: set_column_def series_get_def col_index_snoc iterrows_width nth_append)
  with r show ?thesis by blast
next
  case (Some k)
  then have "c \<in> set (columns df)" using col_index_None by fastforce
  with Some have k: "k < length (columns df)" using col_index_Some by fastforce
  from Some assms obtain r where r: "r \<in> set (iterrows df)" "m = r[k := f r]"
    by (auto simp add: set_column_def zip_with_map)
  with Some k have "series_get (columns (set_column df c (map f (iterrows df)))) m c = Inr (f r)"
    by (simp add: set_column_def series_get_def iterrows_width)
  with r show ?thesis by blast
qed

lemma sample_part2_skips:
  assumes "read_excel wb (sample_prefix @ n) = Some df"
    and "df_empty df \<or> length (columns df) < 3 \<or>
         (\<forall>row\<in>set (iterrows df). clean_cell_value (row ! 2) \<noteq> t)"
  shows "\<exists>w. sample_part2 wb n t = ([w], None) \<and> is_warning w"
proof (cases "df_empty df \<or> length (columns df) < 3")
  case True
  with assms(1) show ?thesis by (auto simp add: sample_part2_def)
next
  case False
  with assms(2) have nm: "\<forall>row\<in>set (iterrows df). clean_cell_value (row ! 2) \<noteq> t" by blast
  let ?f = "\<lambda>r. Str (clean_cell_value (r ! 2))"
  let ?dm = "set_column df temp_column (map ?f (iterrows df))"
  have "filter (\<lambda>r. series_get (columns ?dm) r temp_column = Inr (Str t)) (rows ?dm) = []"
  proof (rule ccontr)
    assume "filter (\<lambda>r. series_get (columns ?dm) r temp_column = Inr (Str t)) (rows ?dm) \<noteq> []"
    then obtain m where m: "m \<in> set (rows ?dm)" "series_get (columns ?dm) m temp_column = Inr (Str t)"
      by (auto simp add: filter_empty_conv)
    from marked_row_origin [OF m(1)] obtain r where "r \<in> set (iterrows df)"
      "series_get (columns ?dm) m temp_column = Inr (?f r)" by blast
    with m(2) nm show False by auto
  qed
  with assms(1) False show ?thesis by (simp add: sample_part2_def Let_def)
qed

lemma sample_part2_emits:
  assumes "sample_part2 wb n t = (evs, Some p2)"
  shows "read_excel wb (sample_prefix @ n) = None \<or>
     (\<exists>df row. read_excel wb (sample_prefix @ n) = Some df \<and> row \<in> set (iterrows df) \<and>
        clean_cell_value (row ! 2) = t)"
proof (cases "read_excel wb (sample_prefix @ n)")
  case None
  then show ?thesis by simp
next
  case (Some df)
  have "\<exists>row\<in>set (iterrows df). clean_cell_value (row ! 2) = t"
  proof (rule ccontr)
    assume "\<not> (\<exists>row\<in>set (iterrows df). clean_cell_value (row ! 2) = t)"
    then have "df_empty df \<or> length (columns df) < 3 \<or>
         (\<forall>row\<in>set (iterrows df). clean_cell_value (row ! 2) \<noteq> t)" by blast
    from sample_part2_skips [OF Some this] assms show False by auto
  qed
  with Some show ?thesis by blast
qed

lemma check_row_skipped_by_sample_sheet:
  assumes "json_target lib (field r 9) = Inr t"
    and "read_excel wb (sample_prefix @ n) = Some df"
    and "df_empty df \<or> length (columns df) < 3 \<or>
         (\<forall>row\<in>set (iterrows df). clean_cell_value (row ! 2) \<noteq> t)"
  shows "\<exists>w. process_check_row lib wb n r = ([w], Continue) \<and> is_warning w"
  using sample_part2_skips [OF assms(2,3)] assms(1)
  by (auto simp add: process_check_row_def)

lemma check_row_emits_only_if:
  assumes "process_check_row lib wb n r = (evs, Append s)"
  shows "\<exists>t. json_target lib (field r 9) = Inr t \<and>
     (read_excel wb (sample_prefix @ n) = None \<or>
      (\<exists>df row. read_excel wb (sample_prefix @ n) = Some df \<and> row \<in> set (iterrows df) \<and>
         clean_cell_value (row ! 2) = t))"
proof (cases "json_target lib (field r 9)")
  case (Inl stop)
  with assms json_target_never_appends [of lib "field r 9" evs s] show ?thesis
    by (simp add: process_check_row_def)
next
  case (Inr t)
  with assms obtain p2 where "sample_part2 wb n t = (evs, Some p2)"
    by (auto simp add: process_check_row_def split: prod.splits option.splits)
  from sample_part2_emits [OF this] Inr show ?thesis by blast
qed

lemma check_row_missing_sheet_appends:
  assumes "json_target lib (field r 9) = Inr t"
    and "read_excel wb (sample_prefix @ n) = None"
  shows "process_check_row lib wb n r = ([WarnSampleReadFailed], Append (part1 r))"
  using assms by (simp add: process_check_row_def sample_part2_def)

lemma json_decode_error_skips:
  assumes "field r 9 \<noteq> []" and "json_loads lib (field r 9) = None"
  shows "process_check_row lib wb n r = ([WarnJsonDecode], Continue)"
  using assms by (simp add: process_check_row_def json_target_def)

lemma non_object_json_raises:
  assumes "field r 9 \<noteq> []" and "json_loads lib (field r 9) = Some v" and "truthy v"
    and "\<forall>items. v \<noteq> PDict items"
  shows "process_check_row lib wb n r = ([], Raise AttributeError)"
  using assms by (cases v) (simp_all add: process_check_row_def json_target_def)

lemma raise_leaves_loop:
  assumes "process_check_row lib wb n r = (evs, Raise e)"
  shows "snd (process_rows lib wb n (r # rs) ds) = Inl e"
  using assms by simp

section \<open>The scenario, and two inputs on which the code fails\<close>

lemmas name_defs = sheet_task_def sheet_business_def sheet_check_def sample_prefix_def
  temp_column_def col_check_form_def col_credit_code_def col_data_date_def
  col_business_name_def col_business_en_name_def
lemmas str_defs = clean_cell_value_def strip_def isspace_def ascii_def

lemma task_frame_ok: "read_task_info task_frame = Inr (ascii ''9111010000'', ascii ''20240105'')"
  by (simp add: read_task_info_def task_frame_def df_empty_def iterrows_def fit_def
      series_get_def col_credit_code_def col_data_date_def clean_cell_value_def strip_def
      isspace_def remove_dashes_def ascii_def Let_def)

lemma scenario_business_ok:
  "read_business_info (catalog_frame [scenario_business]) = Inr [scenario_business]"
  by (simp add: read_catalog_frame drop_duplicates_def)

lemma scenario_sheets:
  "read_excel (scenario c j) sheet_task = Some task_frame"
  "read_excel (scenario c j) sheet_business = Some (catalog_frame [scenario_business])"
  "read_excel (scenario c j) sheet_check = Some (check_frame c j)"
  "read_excel (scenario_without_sample c j) sheet_task = Some task_frame"
  "read_excel (scenario_without_sample c j) sheet_business = Some (catalog_frame [scenario_business])"
  "read_excel (scenario_without_sample c j) sheet_check = Some (check_frame c j)"
  "read_excel (scenario_without_sample c j) (sample_prefix @ scenario_form) = None"
  "read_excel (scenario c j) (sample_prefix @ scenario_form) = Some sample_frame"
  by (simp_all add: read_excel_def scenario_def scenario_without_sample_def name_defs scenario_form_def)

lemma scenario_names:
  "sheet_task \<in> set (sheet_names (scenario c j))"
  "sheet_business \<in> set (sheet_names (scenario c j))"
  "sheet_task \<in> set (sheet_names (scenario_without_sample c j))"
  "sheet_business \<in> set (sheet_names (scenario_without_sample c j))"
  by (simp_all add: sheet_names_def scenario_def scenario_without_sample_def)

lemma scenario_check_group:
  "read_check_group (scenario c j) = ([LogCheckRows 1], Some (check_frame c j))"
  "read_check_group (scenario_without_sample c j) = ([LogCheckRows 1], Some (check_frame c j))"
  by (simp_all add: read_check_group_def scenario_sheets)
     (simp_all add: check_frame_def df_empty_def)

lemma run_job_scenario:
  assumes "wb = scenario c j \<or> wb = scenario_without_sample c j"
  shows "snd (run_job lib clock wb) =
     snd (process_forms lib clock wb (Some (check_frame c j)) (ascii ''9111010000'')
            (ascii ''20240105'') 0 [scenario_business])"
  using assms
  by (auto simp add: run_job_def scenario_names scenario_sheets task_frame_ok
      scenario_business_ok scenario_check_group forms_to_process_def Let_def
      split: prod.splits sum.splits)

lemma get_group_scenario:
  "get_group (check_frame c j) scenario_form = [scenario_row c j]"
  by (simp add: get_group_def check_frame_def iterrows_def fit_def series_get_def
      col_check_form_def scenario_form_def scenario_row_def)

lemma scenario_names_clean:
  "clean_cell_value (fst scenario_business) = scenario_form"
  "clean_cell_value (snd scenario_business) = ascii ''CompanyInfo''"
  by (simp_all add: scenario_business_def scenario_form_def str_defs)

lemma process_scenario:
  "snd (process_business_data lib wb scenario_business (Some (check_frame c j))) =
     map_sum id (\<lambda>ds. (ds, ascii ''CompanyInfo''))
       (snd (process_rows lib wb scenario_form [scenario_row c j] []))"
  by (simp add: process_business_data_def get_group_scenario scenario_names_clean Let_def
      split: prod.splits sum.splits step.splits)

lemma scenario_fields:
  "field (scenario_row c j) 9 = clean_cell_value j"
  "field (scenario_row c j) 2 = clean_cell_value c"
  "field (scenario_row c j) 8 = ascii ''I1''"
  "field (scenario_row c j) 6 = ascii ''G1''"
  by (simp_all add: field_def scenario_row_def str_defs)

lemma target_rows_3: "json_target example_lib (clean_cell_value json_rows_3) = Inr (ascii ''3'')"
  by (simp add: json_target_def example_lib_def example_json_loads_def str_defs json_rows_3_def)

lemma target_list:
  "json_target example_lib (clean_cell_value (Str (ascii ''[1]''))) = Inl ([], Raise AttributeError)"
  by (simp add: json_target_def example_lib_def example_json_loads_def str_defs)

lemma sample_found:
  "sample_part2 (scenario c j) scenario_form (ascii ''3'') = ([], Some (ascii ''v1@&@v2''))"
  by (simp add: sample_part2_def scenario_sheets)
     (simp add: sample_frame_def temp_column_def df_empty_def iterrows_def fit_def
      set_column_def series_get_def drop_column_def str_defs Let_def)

lemma sample_missing:
  "sample_part2 (scenario_without_sample c j) scenario_form t = ([WarnSampleReadFailed], Some [])"
  by (simp add: sample_part2_def scenario_sheets)


lemma scenario_row_list:
  "process_check_row example_lib (scenario c (Str (ascii ''[1]''))) scenario_form
     (scenario_row c (Str (ascii ''[1]''))) = ([], Raise AttributeError)"
  by (simp add: process_check_row_def scenario_fields target_list)

lemma scenario_row_missing:
  "process_check_row example_lib (scenario_without_sample (Str (ascii ''A1'')) json_rows_3)
     scenario_form (scenario_row (Str (ascii ''A1'')) json_rows_3)
     = ([WarnSampleReadFailed], Append (ascii ''01|A1|I1|G1|''))"
  by (simp add: process_check_row_def scenario_fields target_rows_3 sample_missing part1_def)
     (simp add: str_defs)

lemma scenario_row_found:
  "process_check_row example_lib (scenario (Str (ascii ''A1'')) json_rows_3)
     scenario_form (scenario_row (Str (ascii ''A1'')) json_rows_3)
     = ([], Append (ascii ''01|A1|I1|G1|v1@&@v2''))"
  by (simp add: process_check_row_def scenario_fields target_rows_3 sample_found part1_def)
     (simp add: str_defs)

lemma scenario_row_newline:
  "process_check_row example_lib (scenario (Str [97, 10, 98]) json_rows_3)
     scenario_form (scenario_row (Str [97, 10, 98]) json_rows_3)
     = ([], Append (ascii ''01|a'' @ [10] @ ascii ''b|I1|G1|v1@&@v2''))"
  by (simp add: process_check_row_def scenario_fields target_rows_3 sample_found part1_def)
     (simp add: str_defs)

lemma process_forms_single:
  assumes "snd (process_business_data lib wb f cg) = Inr (ds, en)"
    and "encodable cc" "encodable dd" "encodable (clock k)" "encodable en" "list_all encodable ds"
    and "encode_utf8 (join [10] ds) = Inr bytes"
  shows "map_sum id (map dat_bytes) (snd (process_forms lib clock wb cg cc dd k [f])) = Inr [bytes]"
proof -
  obtain evs where p: "process_business_data lib wb f cg = (evs, Inr (ds, en))"
    using assms(1) by (cases "process_business_data lib wb f cg") simp
  from make_artifact_ok [OF assms(2-6), of lib] assms(7) obtain a where
    "make_artifact lib cc dd (clock k) ds en = Inr a" "dat_bytes a = bytes"
    by auto
  with p show ?thesis by simp
qed

lemma process_forms_fail:
  assumes "snd (process_business_data lib wb f cg) = Inl e"
  shows "snd (process_forms lib clock wb cg cc dd k (f # rest)) = Inl e"
proof -
  obtain evs where "process_business_data lib wb f cg = (evs, Inl e)"
    using assms by (cases "process_business_data lib wb f cg") simp
  then show ?thesis by simp
qed

text \<open>
  C2, at a failing input. The J field \<open>[1]\<close> is valid JSON and not an object:
  \<open>json.loads\<close> returns a non-empty list, \<open>json_obj.keys()\<close> raises
  AttributeError, and the handler of line 120 catches \<open>JSONDecodeError\<close> only. The
  row is neither skipped nor emitted: the exception leaves the loop, the function and the
  job, which produces no artifact.
\<close>

theorem non_object_json_aborts_job:
  "process_check_row example_lib (scenario (Str (ascii ''A1'')) (Str (ascii ''[1]''))) scenario_form
     (scenario_row (Str (ascii ''A1'')) (Str (ascii ''[1]''))) = ([], Raise AttributeError) \<and>
   snd (run_job example_lib example_clock (scenario (Str (ascii ''A1'')) (Str (ascii ''[1]''))))
     = Inl AttributeError \<and>
   \<not> is_schema_error AttributeError"
proof -
  let ?wb = "scenario (Str (ascii ''A1'')) (Str (ascii ''[1]''))"
  have r: "process_check_row example_lib ?wb scenario_form
     (scenario_row (Str (ascii ''A1'')) (Str (ascii ''[1]''))) = ([], Raise AttributeError)"
    by (rule scenario_row_list)
  have "snd (process_business_data example_lib ?wb scenario_business
          (Some (check_frame (Str (ascii ''A1'')) (Str (ascii ''[1]''))))) = Inl AttributeError"
    by (simp add: process_scenario r)
  then have "snd (process_forms example_lib example_clock ?wb
       (Some (check_frame (Str (ascii ''A1'')) (Str (ascii ''[1]''))))
       (ascii ''9111010000'') (ascii ''20240105'') 0 [scenario_business]) = Inl AttributeError"
    by (rule process_forms_fail)
  then have "snd (run_job example_lib example_clock ?wb) = Inl AttributeError"
    by (simp add: run_job_scenario [where c = "Str (ascii ''A1'')" and j = "Str (ascii ''[1]'')"])
  with r show ?thesis by simp
qed

text \<open>
  C1, at a failing input. The workbook has no sample sheet for the form. Reading it raises
  inside \<open>try\<close>; the handler of line 152 logs a warning and does not \<open>continue\<close>,
  so line 155 appends the record made of the first segment alone, and the data file of the
  job holds that record.
\<close>

theorem missing_sample_sheet_emits_record:
  "read_excel (scenario_without_sample (Str (ascii ''A1'')) json_rows_3)
     (sample_prefix @ scenario_form) = None \<and>
   process_check_row example_lib (scenario_without_sample (Str (ascii ''A1'')) json_rows_3)
     scenario_form (scenario_row (Str (ascii ''A1'')) json_rows_3)
     = ([WarnSampleReadFailed], Append (ascii ''01|A1|I1|G1|'')) \<and>
   map_sum id (map dat_bytes)
     (snd (run_job example_lib example_clock
        (scenario_without_sample (Str (ascii ''A1'')) json_rows_3)))
     = Inr [map of_nat [48, 49, 124, 65, 49, 124, 73, 49, 124, 71, 49, 124]]"
proof -
  let ?wb = "scenario_without_sample (Str (ascii ''A1'')) json_rows_3"
  have r: "process_check_row example_lib ?wb scenario_form
     (scenario_row (Str (ascii ''A1'')) json_rows_3)
     = ([WarnSampleReadFailed], Append (ascii ''01|A1|I1|G1|''))"
    by (rule scenario_row_missing)
  have p: "snd (process_business_data example_lib ?wb scenario_business
          (Some (check_frame (Str (ascii ''A1'')) json_rows_3)))
        = Inr ([ascii ''01|A1|I1|G1|''], ascii ''CompanyInfo'')"
    by (simp add: process_scenario r)
  have e: "encode_utf8 (join [10] [ascii ''01|A1|I1|G1|''])
     = Inr (map of_nat [48, 49, 124, 65, 49, 124, 73, 49, 124, 71, 49, 124])"
    by (simp add: ascii_def utf8_char_def)
  have h: "encodable (ascii ''9111010000'')" "encodable (ascii ''20240105'')"
    "encodable (example_clock 0)" "encodable (ascii ''CompanyInfo'')"
    "list_all encodable [ascii ''01|A1|I1|G1|'']"
    by (simp_all add: encodable_def ascii_def example_clock_def)
  from process_forms_single [where clock = example_clock and k = 0, OF p h e]
  have "map_sum id (map dat_bytes) (snd (run_job example_lib example_clock ?wb))
     = Inr [map of_nat [48, 49, 124, 65, 49, 124, 73, 49, 124, 71, 49, 124]]"
    by (simp add: run_job_scenario [where c = "Str (ascii ''A1'')" and j = json_rows_3])
  with r show ?thesis by (simp add: scenario_sheets)
qed

lemma scenario_run_dat_bytes:
  "map_sum id (map dat_bytes)
     (snd (run_job example_lib example_clock (scenario (Str (ascii ''A1'')) json_rows_3)))
     = Inr [map of_nat [48, 49, 124, 65, 49, 124, 73, 49, 124, 71, 49, 124, 118, 49, 64, 38,
                        64, 118, 50]]"
proof -
  let ?wb = "scenario (Str (ascii ''A1'')) json_rows_3"
  have p: "snd (process_business_data example_lib ?wb scenario_business
          (Some (check_frame (Str (ascii ''A1'')) json_rows_3)))
        = Inr ([ascii ''01|A1|I1|G1|v1@&@v2''], ascii ''CompanyInfo'')"
    by (simp add: process_scenario scenario_row_found)
  have e: "encode_utf8 (join [10] [ascii ''01|A1|I1|G1|v1@&@v2''])
     = Inr (map of_nat [48, 49, 124, 65, 49, 124, 73, 49, 124, 71, 49, 124, 118, 49, 64, 38,
                        64, 118, 50])"
    by (simp add: ascii_def utf8_char_def)
  have h: "encodable (ascii ''9111010000'')" "encodable (ascii ''20240105'')"
    "encodable (example_clock 0)" "encodable (ascii ''CompanyInfo'')"
    "list_all encodable [ascii ''01|A1|I1|G1|v1@&@v2'']"
    by (simp_all add: encodable_def ascii_def example_clock_def)
  from process_forms_single [where clock = example_clock and k = 0, OF p h e]
  show ?thesis
    by (simp add: run_job_scenario [where c = "Str (ascii ''A1'')" and j = json_rows_3])
qed

text \<open>
  The theorem at the workbook of the scenario and two clocks.
\<close>

theorem dat_bytes_independent_of_clock_witness:
  "(\<forall>k. encodable (example_clock k) \<and> encodable (later_clock k)) \<and>
   map_sum id (map dat_bytes)
     (snd (run_job example_lib example_clock (scenario (Str (ascii ''A1'')) json_rows_3)))
     = Inr [map of_nat [48, 49, 124, 65, 49, 124, 73, 49, 124, 71, 49, 124, 118, 49, 64, 38,
                        64, 118, 50]] \<and>
   map_sum id (map dat_bytes)
     (snd (run_job example_lib later_clock (scenario (Str (ascii ''A1'')) json_rows_3)))
     = Inr [map of_nat [48, 49, 124, 65, 49, 124, 73, 49, 124, 71, 49, 124, 118, 49, 64, 38,
                        64, 118, 50]]"
proof -
  have h: "\<forall>k. encodable (example_clock k) \<and> encodable (later_clock k)"
    by (simp add: encodable_def ascii_def example_clock_def later_clock_def)
  from dat_bytes_independent_of_clock [OF h, of example_lib "scenario (Str (ascii ''A1'')) json_rows_3"]
  have "map_sum id (map dat_bytes)
     (snd (run_job example_lib example_clock (scenario (Str (ascii ''A1'')) json_rows_3)))
    = map_sum id (map dat_bytes)
     (snd (run_job example_lib later_clock (scenario (Str (ascii ''A1'')) json_rows_3)))"
    by blast
  with h scenario_run_dat_bytes show ?thesis by simp
qed

section \<open>Records and the lines of the data file\<close>

lemma split_lines_ne: "split_lines s \<noteq> []"
  by (induction s) (auto split: list.splits)

lemma split_lines_no_lf: "10 \<notin> set x \<Longrightarrow> split_lines x = [x]"
  by (induction x) auto

lemma split_lines_append_lf:
  "10 \<notin> set x \<Longrightarrow> split_lines (x @ 10 # rest) = x # split_lines rest"
  by (induction x) auto

lemma split_lines_join:
  "xs \<noteq> [] \<Longrightarrow> \<forall>x\<in>set xs. 10 \<notin> set x \<Longrightarrow> split_lines (join [10] xs) = xs"
proof (induction "[10::nat]" xs rule: join.induct)
  case 1
  then show ?case by simp
next
  case (2 x)
  then show ?case by (simp add: split_lines_no_lf)
next
  case (3 x y ys)
  then show ?case by (simp add: split_lines_append_lf)
qed

lemma nonblank_lines_join:
  assumes "\<forall>x\<in>set xs. 10 \<notin> set x"
  shows "nonblank_lines (join [10] xs) = line_count xs"
proof (cases "xs = []")
  case True
  then show ?thesis by (simp add: nonblank_lines_def line_count_def strip_def)
next
  case False
  with assms show ?thesis by (simp add: nonblank_lines_def line_count_def split_lines_join)
qed

lemma record_like_strip: "record_like s \<Longrightarrow> strip s \<noteq> []"
  by (auto simp add: record_like_def strip_empty_iff ascii_def isspace_def)

lemma process_check_row_record_like:
  "process_check_row lib wb n r = (evs, Append s) \<Longrightarrow> record_like s"
  by (auto simp add: process_check_row_def part1_def record_like_def Let_def
      json_target_never_appends
      split: sum.splits prod.splits option.splits)

lemma process_rows_record_like:
  "process_rows lib wb n rs acc = (evs, Inr ds) \<Longrightarrow> \<forall>s\<in>set acc. record_like s
     \<Longrightarrow> \<forall>s\<in>set ds. record_like s"
proof (induction rs arbitrary: acc evs)
  case Nil
  then show ?case by simp
next
  case (Cons r rs)
  obtain ev st where c: "process_check_row lib wb n r = (ev, st)"
    by (cases "process_check_row lib wb n r")
  show ?case
  proof (cases st)
    case Continue
    with c Cons.prems(1) obtain ev' where "process_rows lib wb n rs acc = (ev', Inr ds)"
      by (auto split: prod.splits)
    with Cons.IH Cons.prems(2) show ?thesis by blast
  next
    case (Append s)
    with c Cons.prems(1) obtain ev' where q: "process_rows lib wb n rs (acc @ [s]) = (ev', Inr ds)"
      by (auto split: prod.splits)
    from c Append have "record_like s" using process_check_row_record_like by blast
    with Cons.prems(2) have "\<forall>t\<in>set (acc @ [s]). record_like t" by simp
    with Cons.IH q show ?thesis by blast
  next
    case (Raise e)
    with c Cons.prems(1) show ?thesis by simp
  qed
qed

lemma process_business_data_record_like:
  assumes "process_business_data lib wb business cg = (evs, Inr (ds, en))"
  shows "\<forall>s\<in>set ds. record_like s"
proof (cases "cg = None \<or> (\<exists>df. cg = Some df \<and> get_group df (clean_cell_value (fst business)) = [])")
  case True
  from process_business_data_no_group [OF True, of lib wb] assms show ?thesis by simp
next
  case False
  then obtain df where df: "cg = Some df" "get_group df (clean_cell_value (fst business)) \<noteq> []"
    by auto
  obtain ev res where r: "process_rows lib wb (clean_cell_value (fst business))
      (get_group df (clean_cell_value (fst business))) [] = (ev, res)"
    by (cases "process_rows lib wb (clean_cell_value (fst business))
      (get_group df (clean_cell_value (fst business))) []")
  with assms df have "res = Inr ds"
    by (simp add: process_business_data_def Let_def split: sum.splits)
  with r process_rows_record_like [of lib wb _ _ "[]" ev ds] show ?thesis by simp
qed

lemma line_count_all: "\<forall>s\<in>set ds. strip s \<noteq> [] \<Longrightarrow> line_count ds = length ds"
  by (simp add: line_count_def)

text \<open>
  C8 (as the code has it). Every record that \<open>process_business_data\<close> returns
  starts with \<open>01|\<close>, so line 5 of the log is the number of records of the form. It
  is the number of non-blank lines of the data file whenever no record holds a line feed.
  (A line feed of the text is exactly a byte 10 of its UTF-8 encoding, so the lines of the
  text are the lines of the file.)
\<close>

theorem log_line_5_counts_records:
  assumes "process_business_data lib excel_file business check_group
             = (evs, Inr (dat_strings, business_en_name))"
  shows "log_lines lib credit_code data_date create_time business_en_name dat_strings bytes ! 4
           = str_of_nat (length dat_strings) \<and>
         ((\<forall>r\<in>set dat_strings. 10 \<notin> set r) \<longrightarrow>
            nonblank_lines (join [10] dat_strings) = length dat_strings)"
proof -
  from assms have "\<forall>s\<in>set dat_strings. record_like s"
    by (rule process_business_data_record_like)
  then have "\<forall>s\<in>set dat_strings. strip s \<noteq> []" using record_like_strip by blast
  then have lc: "line_count dat_strings = length dat_strings" by (rule line_count_all)
  then show ?thesis by (simp add: log_lines_def nonblank_lines_join)
qed


text \<open>
  The theorem at the scenario, whose one record has no line feed.
\<close>

theorem log_line_5_counts_records_witness:
  "process_business_data example_lib (scenario (Str (ascii ''A1'')) json_rows_3) scenario_business
       (Some (check_frame (Str (ascii ''A1'')) json_rows_3))
     = (fst (process_business_data example_lib (scenario (Str (ascii ''A1'')) json_rows_3)
               scenario_business (Some (check_frame (Str (ascii ''A1'')) json_rows_3))),
        Inr ([scenario_record], ascii ''CompanyInfo'')) \<and>
   log_lines example_lib (ascii ''9111010000'') (ascii ''20240105'') (example_clock 0)
       (ascii ''CompanyInfo'') [scenario_record] [] ! 4 = ascii ''1'' \<and>
   10 \<notin> set scenario_record \<and>
   nonblank_lines (join [10] [scenario_record]) = 1"
proof -
  let ?p = "process_business_data example_lib (scenario (Str (ascii ''A1'')) json_rows_3)
      scenario_business (Some (check_frame (Str (ascii ''A1'')) json_rows_3))"
  have "snd ?p = Inr ([scenario_record], ascii ''CompanyInfo'')"
    by (simp add: process_scenario scenario_row_found scenario_record_def)
  then have p: "?p = (fst ?p, Inr ([scenario_record], ascii ''CompanyInfo''))"
    by (metis prod.collapse)
  have n: "\<forall>r\<in>set [scenario_record]. 10 \<notin> set r"
    by (simp add: scenario_record_def ascii_def)
  from log_line_5_counts_records [OF p, where credit_code = "ascii ''9111010000''"
      and data_date = "ascii ''20240105''" and create_time = "example_clock 0" and bytes = "[]"] n
  have "log_lines example_lib (ascii ''9111010000'') (ascii ''20240105'') (example_clock 0)
       (ascii ''CompanyInfo'') [scenario_record] [] ! 4 = str_of_nat (length [scenario_record])"
    and "nonblank_lines (join [10] [scenario_record]) = length [scenario_record]"
    by blast+
  then have "log_lines example_lib (ascii ''9111010000'') (ascii ''20240105'') (example_clock 0)
       (ascii ''CompanyInfo'') [scenario_record] [] ! 4 = ascii ''1''"
    and "nonblank_lines (join [10] [scenario_record]) = 1"
    by (simp_all add: str_of_nat.simps ascii_def)
  moreover from n have "10 \<notin> set scenario_record" by simp
  ultimately show ?thesis using p by blast
qed

lemma split_newline_record:
  "split_lines newline_record = [ascii ''01|a'', ascii ''b|I1|G1|v1@&@v2'']"
  by (simp add: newline_record_def ascii_def)

text \<open>
  C8 as the spec states it fails: a cell is stripped at its ends only, so the C field
  \<open>a\<close>, line feed, \<open>b\<close> gives one record that spans two non-blank lines of the
  data file, while line 5 of the log says 1.
\<close>

theorem log_line_5_newline_counterexample:
  "snd (process_business_data example_lib (scenario (Str [97, 10, 98]) json_rows_3)
          scenario_business (Some (check_frame (Str [97, 10, 98]) json_rows_3)))
     = Inr ([newline_record], ascii ''CompanyInfo'') \<and>
   log_lines example_lib (ascii ''9111010000'') (ascii ''20240105'') (example_clock 0)
       (ascii ''CompanyInfo'') [newline_record] [] ! 4 = ascii ''1'' \<and>
   nonblank_lines (join [10] [newline_record]) = 2"
proof -
  have a: "snd (process_business_data example_lib (scenario (Str [97, 10, 98]) json_rows_3)
          scenario_business (Some (check_frame (Str [97, 10, 98]) json_rows_3)))
     = Inr ([newline_record], ascii ''CompanyInfo'')"
    by (simp add: process_scenario scenario_row_newline newline_record_def)
  have b: "log_lines example_lib (ascii ''9111010000'') (ascii ''20240105'') (example_clock 0)
       (ascii ''CompanyInfo'') [newline_record] [] ! 4 = ascii ''1''"
    by (simp add: log_lines_def line_count_def newline_record_def strip_def isspace_def
        ascii_def str_of_nat.simps)
  have c: "nonblank_lines (join [10] [newline_record]) = 2"
    by (simp add: nonblank_lines_def split_newline_record)
       (simp add: strip_def isspace_def ascii_def)
  from a b c show ?thesis by simp
qed

section \<open>The five lines of the log\<close>










end
